theory Spec2Isabelle
  imports Main "HOL-Library.AList"
begin

chapter \<open>The tool-server orchestration and execution core of the Chat-Bot\<close>

text \<open>
  A model of \<^verbatim>\<open>Chat-Bot/mcp_client.py\<close> (conversation sessions, the tool usage logger,
  the execution of a query, and the manager of the tool servers) with the parts of
  \<^verbatim>\<open>Chat-Bot/mongodb_manager.py\<close> and \<^verbatim>\<open>Chat-Bot/websocket_server.py\<close> it works with.
  Objects are records, dictionaries are association lists in insertion order, and every
  function takes the state it reads and returns the state it leaves. What lies outside
  the program (the clock, the tool-server processes, the LLM agent, the database server)
  is a parameter of the functions that use it.
\<close>

section \<open>Conversation history (mcp\_client.py, ConversationSession and ConversationManager)\<close>

text \<open>
  Points in time (\<^verbatim>\<open>datetime\<close>) and durations (\<^verbatim>\<open>timedelta\<close>) are integers counting
  microseconds, the resolution of Python's \<^verbatim>\<open>datetime\<close>. Every \<^verbatim>\<open>datetime.now()\<close> of the
  source is a parameter of the function that reads the clock. Console output
  (\<^verbatim>\<open>print\<close>) is not modelled.
\<close>

definition MAX_CONVERSATION_MESSAGES :: nat where
  "MAX_CONVERSATION_MESSAGES = 10"

definition CONVERSATION_CLEANUP_HOURS :: int where
  "CONVERSATION_CLEANUP_HOURS = 24"

definition timedelta_hours :: "int \<Rightarrow> int" where
  "timedelta_hours h = h * 3600 * 1000000"

record ConversationMessage =
  role :: string
  content :: string
  agent_type :: "string option"
  timestamp :: int

record ConversationSession =
  session_id :: string
  messages :: "ConversationMessage list"
  created_at :: int
  last_activity :: int

text \<open>\<^verbatim>\<open>ConversationSession.__init__\<close>: the two clock readings of the constructor.\<close>

definition new_session :: "string \<Rightarrow> int \<Rightarrow> int \<Rightarrow> ConversationSession" where
  "new_session sid t_created t_activity =
     \<lparr>session_id = sid, messages = [], created_at = t_created, last_activity = t_activity\<rparr>"

text \<open>
  The Python slice \<^verbatim>\<open>xs[-n:]\<close>: the last \<open>n\<close> elements, the whole list when it is
  shorter, and (since \<^verbatim>\<open>-0\<close> is \<^verbatim>\<open>0\<close>) the whole list when \<open>n = 0\<close>.
\<close>

definition slice_last :: "nat \<Rightarrow> 'a list \<Rightarrow> 'a list" where
  "slice_last n xs = (if n = 0 then xs else drop (length xs - n) xs)"

text \<open>
  \<^verbatim>\<open>add_message\<close>: \<open>t_msg\<close> is the clock reading of the message constructor,
  \<open>t_act\<close> the one stored in \<^verbatim>\<open>last_activity\<close>.
\<close>

definition add_message ::
  "int \<Rightarrow> int \<Rightarrow> string \<Rightarrow> string \<Rightarrow> string option \<Rightarrow> ConversationSession \<Rightarrow> ConversationSession"
where
  "add_message t_msg t_act r c a s =
     (let message = \<lparr>role = r, content = c, agent_type = a, timestamp = t_msg\<rparr>;
          appended = messages s @ [message]
      in s\<lparr>messages :=
             (if length appended > MAX_CONVERSATION_MESSAGES
              then slice_last MAX_CONVERSATION_MESSAGES appended
              else appended),
           last_activity := t_act\<rparr>)"

text \<open>One call of \<^verbatim>\<open>add_message\<close> with its arguments and clock readings.\<close>

record append_call =
  ac_t_msg :: int
  ac_t_act :: int
  ac_role :: string
  ac_content :: string
  ac_agent_type :: "string option"

definition apply_append :: "ConversationSession \<Rightarrow> append_call \<Rightarrow> ConversationSession" where
  "apply_append s c =
     add_message (ac_t_msg c) (ac_t_act c) (ac_role c) (ac_content c) (ac_agent_type c) s"

definition message_of :: "append_call \<Rightarrow> ConversationMessage" where
  "message_of c = \<lparr>role = ac_role c, content = ac_content c,
                   agent_type = ac_agent_type c, timestamp = ac_t_msg c\<rparr>"

definition add_messages :: "append_call list \<Rightarrow> ConversationSession \<Rightarrow> ConversationSession" where
  "add_messages cs s = foldl apply_append s cs"


text \<open>
  \<^verbatim>\<open>get_context_string\<close>. \<^verbatim>\<open>"\n".join(parts)\<close> is \<open>join newline parts\<close>; an
  \<^verbatim>\<open>agent_type\<close> that is \<^verbatim>\<open>None\<close> or empty is falsy and adds nothing to the line.
\<close>

definition newline :: string where
  "newline = [CHR 0x0A]"

fun join :: "string \<Rightarrow> string list \<Rightarrow> string" where
  "join sep [] = []"
| "join sep [x] = x"
| "join sep (x # y # ys) = x @ sep @ join sep (y # ys)"

definition render_message :: "ConversationMessage \<Rightarrow> string" where
  "render_message msg =
     (if role msg = ''user'' then ''User: '' @ content msg
      else (let agent_info =
                  (case agent_type msg of
                     None \<Rightarrow> []
                   | Some a \<Rightarrow> if a = [] then [] else '' ('' @ a @ '' agent)'')
            in ''Assistant'' @ agent_info @ '': '' @ content msg))"

definition get_context_string :: "ConversationSession \<Rightarrow> string" where
  "get_context_string s =
     (if messages s = [] then []
      else join newline
             ([''Previous conversation context:'']
              @ map render_message (slice_last MAX_CONVERSATION_MESSAGES (messages s))
              @ [''---'']))"

text \<open>\<^verbatim>\<open>is_expired\<close>, with the clock reading \<open>now\<close>.\<close>

definition is_expired :: "int \<Rightarrow> ConversationSession \<Rightarrow> bool" where
  "is_expired now s \<longleftrightarrow> now - last_activity s > timedelta_hours CONVERSATION_CLEANUP_HOURS"

text \<open>
  \<^verbatim>\<open>ConversationManager.sessions\<close> is a dictionary; it is an association list in
  insertion order, read with \<^const>\<open>map_of\<close> and written with \<^const>\<open>AList.update\<close> and
  \<^const>\<open>AList.delete\<close>. A dictionary has every key once: \<open>distinct (map fst sessions)\<close>.
\<close>

type_synonym ConversationManager = "(string \<times> ConversationSession) list"

definition get_or_create_session ::
  "int \<Rightarrow> int \<Rightarrow> string \<Rightarrow> ConversationManager \<Rightarrow> ConversationSession \<times> ConversationManager"
where
  "get_or_create_session t_created t_activity sid sessions =
     (case map_of sessions sid of
        None \<Rightarrow> (let s = new_session sid t_created t_activity
                 in (s, AList.update sid s sessions))
      | Some s \<Rightarrow> (s, sessions))"

definition cleanup_expired_sessions :: "int \<Rightarrow> ConversationManager \<Rightarrow> ConversationManager" where
  "cleanup_expired_sessions now sessions =
     (let expired_sessions = map fst (filter (\<lambda>(sid, s). is_expired now s) sessions)
      in fold AList.delete expired_sessions sessions)"

section \<open>In-flight task table (websocket\_server.py, ConnectionManager)\<close>

text \<open>An \<^verbatim>\<open>asyncio.Task\<close> is represented by what \<^verbatim>\<open>task.done()\<close> answers.\<close>

record task_handle =
  task_done :: bool

type_synonym connection_tasks = "(string \<times> task_handle) list"

definition register_task :: "string \<Rightarrow> task_handle \<Rightarrow> connection_tasks \<Rightarrow> connection_tasks" where
  "register_task sid task tasks = AList.update sid task tasks"

definition cleanup_task :: "string \<Rightarrow> connection_tasks \<Rightarrow> connection_tasks" where
  "cleanup_task sid tasks = AList.delete sid tasks"

text \<open>A session has an in-flight execution when a task that is not done is registered for it.\<close>

definition in_flight :: "connection_tasks \<Rightarrow> string \<Rightarrow> bool" where
  "in_flight tasks sid = (case map_of tasks sid of None \<Rightarrow> False | Some t \<Rightarrow> \<not> task_done t)"

section \<open>Tool activities (mongodb\_manager.py and ToolUseLogger)\<close>

text \<open>
  The \<^verbatim>\<open>agent_activities\<close> collection. Document ids are numbers handed out in order.
  The timestamps of a document and \<^verbatim>\<open>time_taken\<close> are left out. \<^verbatim>\<open>ToolUseLogger\<close> loads
  the module \<^verbatim>\<open>mongodb_manager.py\<close> afresh for every call, which runs \<^verbatim>\<open>connect()\<close>
  again; so \<^verbatim>\<open>is_connected\<close> holds exactly when the server can be reached, and an
  operation on a server that cannot be reached returns \<^verbatim>\<open>None\<close> or \<^verbatim>\<open>False\<close>.
\<close>

record activity_doc =
  doc_agent_id :: int
  doc_workspace_id :: int
  tool_called :: string
  tool_input :: string
  status :: string
  tool_output :: "string option"

record mongodb =
  reachable :: bool
  activities_collection :: "(nat \<times> activity_doc) list"
  next_object_id :: nat

definition create_tool_activity ::
  "int \<Rightarrow> int \<Rightarrow> string \<Rightarrow> string \<Rightarrow> mongodb \<Rightarrow> nat option \<times> mongodb" where
  "create_tool_activity aid wid tool inp db =
     (if \<not> reachable db then (None, db)
      else (let activity_document =
                  \<lparr>doc_agent_id = aid, doc_workspace_id = wid, tool_called = tool,
                   tool_input = inp, status = ''running'', tool_output = None\<rparr>;
                inserted_id = next_object_id db
            in (Some inserted_id,
                db\<lparr>activities_collection :=
                      activities_collection db @ [(inserted_id, activity_document)],
                   next_object_id := Suc inserted_id\<rparr>)))"

definition mongodb_update_tool_activity ::
  "nat \<Rightarrow> string \<Rightarrow> string \<Rightarrow> mongodb \<Rightarrow> bool \<times> mongodb" where
  "mongodb_update_tool_activity activity_id outp st db =
     (if \<not> reachable db then (False, db)
      else (case map_of (activities_collection db) activity_id of
              None \<Rightarrow> (False, db)
            | Some original_doc \<Rightarrow>
                (True,
                 db\<lparr>activities_collection :=
                       AList.update activity_id
                         (original_doc\<lparr>tool_output := Some outp, status := st\<rparr>)
                         (activities_collection db)\<rparr>)))"

text \<open>
  \<^verbatim>\<open>ToolUseLogger\<close>. \<^verbatim>\<open>tool_activities\<close> is a dictionary from tool name to the id of the
  activity document, in insertion order. The state threaded through the callbacks is the
  logger together with the database.
\<close>

record ToolUseLogger =
  tools_used :: "string list"
  tool_activities :: "(string \<times> nat) list"
  agent_id :: "int option"
  workspace_id :: "int option"

type_synonym tracking = "ToolUseLogger \<times> mongodb"

definition ToolUseLogger_init :: ToolUseLogger where
  "ToolUseLogger_init =
     \<lparr>tools_used = [], tool_activities = [], agent_id = None, workspace_id = None\<rparr>"

text \<open>Python truth of an optional integer and of an optional string.\<close>

definition truthy_int :: "int option \<Rightarrow> bool" where
  "truthy_int x = (case x of None \<Rightarrow> False | Some n \<Rightarrow> n \<noteq> 0)"

definition truthy_str :: "string option \<Rightarrow> bool" where
  "truthy_str x = (case x of None \<Rightarrow> False | Some s \<Rightarrow> s \<noteq> [])"

definition set_context :: "int \<Rightarrow> int \<Rightarrow> ToolUseLogger \<Rightarrow> ToolUseLogger" where
  "set_context aid wid lg = lg\<lparr>agent_id := Some aid, workspace_id := Some wid\<rparr>"

definition reset :: "ToolUseLogger \<Rightarrow> ToolUseLogger" where
  "reset lg = lg\<lparr>tools_used := [], tool_activities := []\<rparr>"

definition get_tools_used :: "ToolUseLogger \<Rightarrow> string list" where
  "get_tools_used lg = tools_used lg"

definition create_activity_record :: "string \<Rightarrow> string \<Rightarrow> tracking \<Rightarrow> tracking" where
  \<comment> \<open>\<^verbatim>\<open>ToolUseLogger._create_tool_activity\<close>\<close>
  "create_activity_record tool tool_args tr =
     (let lg = fst tr; db = snd tr
      in if \<not> truthy_int (agent_id lg) \<or> \<not> truthy_int (workspace_id lg) then tr
         else (case create_tool_activity (the (agent_id lg)) (the (workspace_id lg))
                      tool tool_args db of
                 (Some activity_id, db') \<Rightarrow>
                   (lg\<lparr>tool_activities := AList.update tool activity_id (tool_activities lg)\<rparr>,
                    db')
               | (None, db') \<Rightarrow> (lg, db')))"

definition update_tool_activity :: "string \<Rightarrow> string \<Rightarrow> string \<Rightarrow> tracking \<Rightarrow> tracking" where
  \<comment> \<open>\<^verbatim>\<open>ToolUseLogger.update_tool_activity\<close>\<close>
  "update_tool_activity tool outp st tr =
     (let lg = fst tr; db = snd tr
      in case map_of (tool_activities lg) tool of
           None \<Rightarrow> tr
         | Some activity_id \<Rightarrow>
             (case mongodb_update_tool_activity activity_id outp st db of
                (True, db') \<Rightarrow>
                  (lg\<lparr>tool_activities := AList.delete tool (tool_activities lg)\<rparr>, db')
              | (False, db') \<Rightarrow> (lg, db')))"

text \<open>
  The keyword arguments of \<^verbatim>\<open>on_tool_end\<close> and \<^verbatim>\<open>on_tool_error\<close>, as far as the handlers
  look at them: \<^verbatim>\<open>kwargs['name']\<close>, \<^verbatim>\<open>kwargs['tool'].name\<close> and
  \<^verbatim>\<open>kwargs['serialized'].get('name')\<close>, each \<^verbatim>\<open>None\<close> when absent.
\<close>

record tool_kwargs =
  kw_name :: "string option"
  kw_tool_name :: "string option"
  kw_serialized_name :: "string option"

definition extract_tool_name :: "tool_kwargs \<Rightarrow> string option" where
  "extract_tool_name kw =
     (case kw_name kw of
        Some n \<Rightarrow> Some n
      | None \<Rightarrow> (case kw_tool_name kw of
                   Some n \<Rightarrow> Some n
                 | None \<Rightarrow> kw_serialized_name kw))"

definition on_tool_end :: "string \<Rightarrow> tool_kwargs \<Rightarrow> tracking \<Rightarrow> tracking" where
  "on_tool_end outp kw tr =
     (case extract_tool_name kw of
        None \<Rightarrow> tr
      | Some tool \<Rightarrow>
          if tool \<noteq> [] \<and> map_of (tool_activities (fst tr)) tool \<noteq> None
          then update_tool_activity tool outp ''completed'' tr
          else tr)"

definition on_tool_error :: "string \<Rightarrow> tool_kwargs \<Rightarrow> tracking \<Rightarrow> tracking" where
  "on_tool_error err kw tr =
     (case extract_tool_name kw of
        None \<Rightarrow> tr
      | Some tool \<Rightarrow>
          if tool \<noteq> [] \<and> map_of (tool_activities (fst tr)) tool \<noteq> None
          then update_tool_activity tool err ''failed'' tr
          else tr)"

text \<open>
  An LLM response as \<^verbatim>\<open>on_llm_end\<close> reads it: every generation has an optional
  \<^verbatim>\<open>function_call\<close> and a list of \<^verbatim>\<open>tool_calls\<close>; a call has an optional name and its
  arguments (the JSON text; parsing it has no effect on what is tracked).
\<close>

record function_call =
  fc_name :: "string option"
  fc_arguments :: string

record generation =
  gen_function_call :: "function_call option"
  gen_tool_calls :: "function_call list"

definition track_call :: "function_call \<Rightarrow> tracking \<Rightarrow> tracking" where
  "track_call fc tr =
     (case fc_name fc of
        None \<Rightarrow> tr
      | Some tool \<Rightarrow>
          (let lg = fst tr;
               lg' = (if tool \<in> set (tools_used lg) then lg
                      else lg\<lparr>tools_used := tools_used lg @ [tool]\<rparr>)
           in create_activity_record tool (fc_arguments fc) (lg', snd tr)))"

definition on_generation :: "generation \<Rightarrow> tracking \<Rightarrow> tracking" where
  "on_generation g tr =
     (let tr1 = (case gen_function_call g of None \<Rightarrow> tr | Some fc \<Rightarrow> track_call fc tr)
      in fold track_call (gen_tool_calls g) tr1)"

definition on_llm_end :: "generation list list \<Rightarrow> tracking \<Rightarrow> tracking" where
  "on_llm_end generations tr = fold (\<lambda>generation_list. fold on_generation generation_list) generations tr"

datatype callback =
  LLMEnd "generation list list"
| ToolEnd string tool_kwargs
| ToolError string tool_kwargs

fun run_callback :: "callback \<Rightarrow> tracking \<Rightarrow> tracking" where
  "run_callback (LLMEnd generations) tr = on_llm_end generations tr"
| "run_callback (ToolEnd outp kw) tr = on_tool_end outp kw tr"
| "run_callback (ToolError err kw) tr = on_tool_error err kw tr"

definition update_pending_tool_activities :: "string \<Rightarrow> string \<Rightarrow> tracking \<Rightarrow> tracking" where
  \<comment> \<open>\<^verbatim>\<open>MCPClientManager._update_pending_tool_activities\<close>\<close>
  "update_pending_tool_activities st outp tr =
     fold (\<lambda>tool. update_tool_activity tool outp st) (map fst (tool_activities (fst tr))) tr"


section \<open>Execution of a query (MCPClientManager.execute\_agent\_with\_context)\<close>

text \<open>
  What \<^verbatim>\<open>agent.ainvoke\<close> returns: a dictionary or an object with attributes, both with
  string values, together with the text \<^verbatim>\<open>str(result)\<close>.
\<close>

datatype agent_result =
  ResultDict "(string \<times> string) list" string
| ResultObject "(string \<times> string) list" string

text \<open>\<^verbatim>\<open>a or b\<close> on optional strings whose right operand is always defined.\<close>

definition py_or :: "string option \<Rightarrow> string \<Rightarrow> string" where
  "py_or a b = (case a of None \<Rightarrow> b | Some x \<Rightarrow> if x = [] then b else x)"

fun extract_response_content :: "agent_result \<Rightarrow> string" where
  "extract_response_content (ResultDict d str_result) =
     py_or (map_of d ''output'') (py_or (map_of d ''content'') (py_or (map_of d ''text'') str_result))"
| "extract_response_content (ResultObject attrs str_result) =
     (case map_of attrs ''content'' of
        Some c \<Rightarrow> c
      | None \<Rightarrow> (case map_of attrs ''output'' of
                   Some c \<Rightarrow> c
                 | None \<Rightarrow> (case map_of attrs ''text'' of
                              Some c \<Rightarrow> c
                            | None \<Rightarrow> str_result)))"

definition get_agent_type :: "string" where
  "get_agent_type = ''user_agent''"

text \<open>
  The policy engine is a black box. One run of it under \<^verbatim>\<open>asyncio.wait_for\<close> is the list
  of callbacks it makes on the tool logger and the way the awaited call ends: it returns
  a result, the 60 second timeout fires, the task is cancelled, or it raises an exception
  \<open>e\<close> (given by \<^verbatim>\<open>str(e)\<close>).
\<close>

datatype agent_outcome =
  Returned agent_result
| TimedOut
| Cancelled
| Raised string

type_synonym agent_run = "callback list \<times> agent_outcome"

type_synonym policy_engine = "string \<Rightarrow> agent_run"

text \<open>The exceptions that leave \<^verbatim>\<open>execute_agent_with_context\<close>.\<close>

datatype py_exception =
  Exception string
| TimeoutError
| CancelledError

text \<open>The clock readings of one \<^verbatim>\<open>get_or_create_session\<close> followed by \<^verbatim>\<open>add_message\<close>.\<close>

record clock =
  now_created :: int
  now_first_activity :: int
  now_message :: int
  now_activity :: int

record exec_state =
  tool_logger :: ToolUseLogger
  conversation_manager :: ConversationManager
  mongodb_server :: mongodb

text \<open>
  Both halves leave out the copies of the messages written to the chat history
  collection of MongoDB (every failure of that write is caught and logged) and the token
  usage attached to the result.
\<close>

definition session_add_message ::
  "clock \<Rightarrow> string \<Rightarrow> string \<Rightarrow> string \<Rightarrow> string option \<Rightarrow> ConversationManager
     \<Rightarrow> ConversationSession \<times> ConversationManager" where
  \<comment> \<open>\<^verbatim>\<open>session = get_or_create_session(sid); session.add_message(...)\<close>: the
      session object in the dictionary is the one that is changed\<close>
  "session_add_message clk sid r c a sessions =
     (case get_or_create_session (now_created clk) (now_first_activity clk) sid sessions of
        (s, sessions1) \<Rightarrow>
          (let s' = add_message (now_message clk) (now_activity clk) r c a s
           in (s', AList.update sid s' sessions1)))"

definition prepare_execution ::
  "string \<Rightarrow> string option \<Rightarrow> int option \<Rightarrow> int option \<Rightarrow> clock \<Rightarrow> exec_state
     \<Rightarrow> string \<times> exec_state" where
  \<comment> \<open>lines 700 to 743: everything before the agent is invoked; the first component is
      \<^verbatim>\<open>contextual_query\<close>\<close>
  "prepare_execution query sid aid wid clk st =
     (let lg0 = reset (tool_logger st);
          lg1 = (if truthy_int aid \<and> truthy_int wid then set_context (the aid) (the wid) lg0
                 else lg0);
          st1 = st\<lparr>tool_logger := lg1\<rparr>
      in if truthy_str sid then
           (case session_add_message clk (the sid) ''user'' query None (conversation_manager st1) of
              (session, sessions') \<Rightarrow>
                (let context = get_context_string session;
                     contextual_query =
                       (if context \<noteq> [] then context @ newline @ newline
                                                 @ ''Current user message: '' @ query
                        else query)
                 in (contextual_query, st1\<lparr>conversation_manager := sessions'\<rparr>)))
         else (query, st1))"

definition finish_execution ::
  "agent_run \<Rightarrow> string option \<Rightarrow> clock \<Rightarrow> exec_state
     \<Rightarrow> (py_exception + agent_result \<times> string list) \<times> exec_state" where
  \<comment> \<open>lines 745 to 818: the awaited agent call with its callbacks, the three exception
      handlers, and the bookkeeping after a result\<close>
  "finish_execution run sid clk st =
     (let tr = fold run_callback (fst run) (tool_logger st, mongodb_server st);
          failed_with = (\<lambda>outp exc.
             (let tr' = update_pending_tool_activities ''failed'' outp tr
              in (Inl exc, st\<lparr>tool_logger := fst tr', mongodb_server := snd tr'\<rparr>)))
      in case snd run of
           TimedOut \<Rightarrow>
             failed_with ''Execution timeout''
               (Exception ''Agent execution timed out after 60 seconds'')
         | Cancelled \<Rightarrow> failed_with ''Execution cancelled'' CancelledError
         | Raised e \<Rightarrow> failed_with e (Exception e)
         | Returned result \<Rightarrow>
             (let response_content = extract_response_content result;
                  tr' = (if tool_activities (fst tr) \<noteq> []
                         then update_pending_tool_activities ''completed'' response_content tr
                         else tr);
                  tools = get_tools_used (fst tr');
                  sessions' =
                    (if truthy_str sid \<and> response_content \<noteq> []
                     then snd (session_add_message clk (the sid) ''assistant'' response_content
                                 (Some get_agent_type) (conversation_manager st))
                     else conversation_manager st)
              in (Inr (result, tools),
                  st\<lparr>tool_logger := fst tr', mongodb_server := snd tr',
                     conversation_manager := sessions'\<rparr>)))"

definition execute_agent_with_context ::
  "policy_engine \<Rightarrow> string \<Rightarrow> string option \<Rightarrow> int option \<Rightarrow> int option \<Rightarrow> clock \<Rightarrow> clock
     \<Rightarrow> exec_state \<Rightarrow> (py_exception + agent_result \<times> string list) \<times> exec_state" where
  "execute_agent_with_context agent query sid aid wid clk_user clk_reply st =
     (case prepare_execution query sid aid wid clk_user st of
        (contextual_query, st1) \<Rightarrow> finish_execution (agent contextual_query) sid clk_reply st1)"

text \<open>The status of an activity document, if the collection has it.\<close>

definition activity_status :: "exec_state \<Rightarrow> nat \<Rightarrow> string option" where
  "activity_status st i = map_option status (map_of (activities_collection (mongodb_server st)) i)"

definition activity_output :: "exec_state \<Rightarrow> nat \<Rightarrow> string option" where
  "activity_output st i =
     (case map_of (activities_collection (mongodb_server st)) i of
        None \<Rightarrow> None
      | Some d \<Rightarrow> tool_output d)"


section \<open>Tool servers and the manager (MCPClientManager)\<close>

text \<open>
  One entry of the list that \<^verbatim>\<open>get_mcp_servers()\<close> returns. A value of \<^verbatim>\<open>env\<close> is
  \<^verbatim>\<open>None\<close> where the entry takes it from \<^verbatim>\<open>os.getenv\<close> and the variable is not set.
\<close>

record server_config =
  cfg_id :: string
  command :: string
  args :: "string list"
  env :: "(string \<times> string option) list"

record mcp_tool =
  t_name :: string
  t_description :: string

text \<open>
  What happens when the loop of \<^verbatim>\<open>initialize\<close> reaches a server: the process cannot be
  started (\<^verbatim>\<open>stdio_client\<close> raises), the process starts but the session or its
  \<^verbatim>\<open>initialize()\<close> handshake raises, \<^verbatim>\<open>load_mcp_tools\<close> raises, or the tools are
  loaded.
\<close>

datatype server_behaviour =
  SpawnFails
| HandshakeFails
| ToolLoadFails
| Exposes "mcp_tool list"

text \<open>
  What \<^verbatim>\<open>await asyncio.wait_for(self.stack.__aexit__(None, None, None), timeout=5.0)\<close>
  does: it returns, it raises \<^verbatim>\<open>asyncio.TimeoutError\<close> after five seconds, or it raises
  another \<^verbatim>\<open>Exception\<close>. These are the cases that \<^verbatim>\<open>_force_cleanup\<close> handles; the
  cancellation of the task that runs the teardown or the initialisation is not part of
  the model of the manager.
\<close>

datatype exit_behaviour =
  ExitCompletes
| ExitTimesOut
| ExitRaises string

text \<open>
  What lines 616 to 636 do with a tool list: \<^verbatim>\<open>ChatOpenAI\<close> raises,
  \<^verbatim>\<open>create_sub_agents\<close> raises, \<^verbatim>\<open>initialize_agent\<close> raises, or both agents are built.
\<close>

datatype creation_behaviour =
  LLMRaises string
| SubAgentsRaise string
| AgentRaises string
| AgentsCreated

text \<open>
  The environment of a manager: whether the library constructor
  \<^verbatim>\<open>StdioServerParameters(command=..., args=..., env=...)\<close> raises for a configuration
  (\<open>Some\<close> of its message) or returns, how each server behaves, how closing an exit
  stack that holds the given server processes behaves, and how building the LLM and the
  agents over a tool list behaves.
\<close>

record environment =
  stdio_parameters :: "server_config \<Rightarrow> string option"
  server :: "server_config \<Rightarrow> server_behaviour"
  stack_exit :: "string list \<Rightarrow> exit_behaviour"
  agent_creation :: "mcp_tool list \<Rightarrow> creation_behaviour"

text \<open>
  The manager. \<^verbatim>\<open>stack\<close> is \<^verbatim>\<open>None\<close> or an \<^verbatim>\<open>AsyncExitStack\<close>, given by the ids of the
  servers whose processes it holds, in the order they were entered. An agent is given by
  the tools it was built over. The LLM parameters \<^verbatim>\<open>temperature\<close> and \<^verbatim>\<open>model\<close> are left
  out, and so are the module-level contexts that \<^verbatim>\<open>initialize\<close> sets: their effect is the
  list that \<^verbatim>\<open>get_mcp_servers()\<close> returns, which is a parameter here.
\<close>

record MCPClientManager =
  stack :: "string list option"
  server_tools :: "(string \<times> mcp_tool list) list"
  all_tools :: "mcp_tool list"
  sub_agents :: "mcp_tool list option"
  agent :: "mcp_tool list option"
  initialization_lock :: bool
  is_initializing :: bool

definition MCPClientManager_init :: MCPClientManager where
  "MCPClientManager_init =
     \<lparr>stack = None, server_tools = [], all_tools = [], sub_agents = None, agent = None,
      initialization_lock = False, is_initializing = False\<rparr>"

definition force_cleanup :: "environment \<Rightarrow> MCPClientManager \<Rightarrow> MCPClientManager" where
  \<comment> \<open>\<^verbatim>\<open>_force_cleanup\<close>: all three behaviours of the awaited exit end in the
      \<^verbatim>\<open>finally\<close> clause\<close>
  "force_cleanup e m =
     (case stack m of
        None \<Rightarrow> m
      | Some processes \<Rightarrow>
          (case stack_exit e processes of
             ExitCompletes \<Rightarrow> m\<lparr>stack := None\<rparr>
           | ExitTimesOut \<Rightarrow> m\<lparr>stack := None\<rparr>
           | ExitRaises msg \<Rightarrow> m\<lparr>stack := None\<rparr>))"

definition reset_state :: "MCPClientManager \<Rightarrow> MCPClientManager" where
  "reset_state m = m\<lparr>server_tools := [], all_tools := [], sub_agents := None, agent := None\<rparr>"


text \<open>
  The errors of \<^verbatim>\<open>initialize\<close>. The source raises \<^verbatim>\<open>RuntimeError\<close> with one message when
  no tool was loaded, which the specification calls \<open>NoToolsAvailable\<close>; it raises what
  the construction of the LLM and the agents raises, what the construction of the
  parameters of a server raises, and \<^verbatim>\<open>IndexError\<close> where a log line reads
  \<^verbatim>\<open>cfg['args'][0]\<close> of a configuration without arguments; and no statement of the
  source raises an error for a repeated tool name, which the specification calls
  \<open>DuplicateOperation\<close>.
\<close>

datatype build_error =
  RuntimeError string
| DuplicateOperation string
| AgentCreationError string
| ValidationError string
| IndexError

text \<open>
  The loop over the servers (lines 587 to 611). The result is the exception that leaves
  the loop, if any, and the manager at that point. The parameters of a server are
  constructed before the first \<^verbatim>\<open>try\<close> block, so an exception there leaves the loop.
  Both \<^verbatim>\<open>except\<close> handlers and the line after \<^verbatim>\<open>load_mcp_tools\<close> format
  \<^verbatim>\<open>cfg['args'][0]\<close> into a log line: with an empty \<^verbatim>\<open>args\<close> this raises
  \<^verbatim>\<open>IndexError\<close>, in a handler at once and after \<^verbatim>\<open>load_mcp_tools\<close> through the second
  handler, before the tools are stored; the exception leaves the loop. Without a stack
  the first statement of the first \<^verbatim>\<open>try\<close> block raises, which is handled like any
  other failure to connect.
\<close>

fun load_servers ::
  "environment \<Rightarrow> server_config list \<Rightarrow> MCPClientManager
     \<Rightarrow> build_error option \<times> MCPClientManager" where
  "load_servers e [] m = (None, m)"
| "load_servers e (cfg # cfgs) m =
     (case stdio_parameters e cfg of
        Some msg \<Rightarrow> (Some (ValidationError msg), m)
      | None \<Rightarrow>
          (case stack m of
             None \<Rightarrow> if args cfg = [] then (Some IndexError, m) else load_servers e cfgs m
           | Some processes \<Rightarrow>
               (let entered = m\<lparr>stack := Some (processes @ [cfg_id cfg])\<rparr>
                in case server e cfg of
                     SpawnFails \<Rightarrow>
                       if args cfg = [] then (Some IndexError, m) else load_servers e cfgs m
                   | HandshakeFails \<Rightarrow>
                       if args cfg = [] then (Some IndexError, entered)
                       else load_servers e cfgs entered
                   | ToolLoadFails \<Rightarrow>
                       if args cfg = [] then (Some IndexError, entered)
                       else load_servers e cfgs entered
                   | Exposes tools \<Rightarrow>
                       if args cfg = [] then (Some IndexError, entered)
                       else load_servers e cfgs
                              (entered\<lparr>server_tools :=
                                         AList.update (cfg_id cfg) tools (server_tools m),
                                       all_tools := all_tools m @ tools\<rparr>))))"

definition processes_of :: "MCPClientManager \<Rightarrow> string list" where
  "processes_of m = (case stack m of None \<Rightarrow> [] | Some processes \<Rightarrow> processes)"

definition no_tools_message :: string where
  "no_tools_message =
     [CHR 0xE2, CHR 0x9D, CHR 0x8C] @ '' No tools loaded from any MCP server.''"

definition NoToolsAvailable :: build_error where
  "NoToolsAvailable = RuntimeError no_tools_message"

definition build_tool_set ::
  "environment \<Rightarrow> server_config list \<Rightarrow> MCPClientManager \<Rightarrow> build_error + MCPClientManager" where
  \<comment> \<open>lines 578 to 614: a new stack, the loop over the servers, the check\<close>
  "build_tool_set e mcp_servers m =
     (case load_servers e mcp_servers (m\<lparr>stack := Some []\<rparr>) of
        (Some err, m1) \<Rightarrow> Inl err
      | (None, m1) \<Rightarrow> if all_tools m1 = [] then Inl NoToolsAvailable else Inr m1)"

text \<open>
  \<^verbatim>\<open>initialize\<close> in three parts, cut where the coroutine can be suspended while it
  holds the lock: entering (taking the free lock, testing and setting the flag), the
  first \<^verbatim>\<open>_force_cleanup\<close> with the reset, and the build with the agents, which ends by
  clearing the flag and releasing the lock.
\<close>

datatype entered = ReturnedEarly | Proceeds

definition initialize_enter :: "MCPClientManager \<Rightarrow> entered \<times> MCPClientManager" where
  \<comment> \<open>requires \<open>\<not> initialization_lock m\<close>; an early return releases the lock\<close>
  "initialize_enter m =
     (if is_initializing m then (ReturnedEarly, m)
      else (Proceeds, m\<lparr>initialization_lock := True, is_initializing := True\<rparr>))"

definition initialize_reset :: "environment \<Rightarrow> MCPClientManager \<Rightarrow> MCPClientManager" where
  "initialize_reset e m = reset_state (force_cleanup e m)"

definition initialize_build ::
  "environment \<Rightarrow> server_config list \<Rightarrow> MCPClientManager
     \<Rightarrow> build_error option \<times> MCPClientManager" where
  "initialize_build e mcp_servers m =
     (let m1 = snd (load_servers e mcp_servers (m\<lparr>stack := Some []\<rparr>));
          leave = (\<lambda>m'. m'\<lparr>is_initializing := False, initialization_lock := False\<rparr>)
      in case build_tool_set e mcp_servers m of
           Inl err \<Rightarrow> (Some err, leave (force_cleanup e m1))
         | Inr m2 \<Rightarrow>
             (case agent_creation e (all_tools m2) of
                LLMRaises msg \<Rightarrow> (Some (AgentCreationError msg), leave (force_cleanup e m2))
              | SubAgentsRaise msg \<Rightarrow>
                  (Some (AgentCreationError msg), leave (force_cleanup e m2))
              | AgentRaises msg \<Rightarrow>
                  (Some (AgentCreationError msg),
                   leave (force_cleanup e (m2\<lparr>sub_agents := Some (all_tools m2)\<rparr>)))
              | AgentsCreated \<Rightarrow>
                  (None, leave (m2\<lparr>sub_agents := Some (all_tools m2),
                                    agent := Some (all_tools m2)\<rparr>))))"


section \<open>Concurrent calls of initialize on one manager\<close>

text \<open>
  Tasks of one event loop, each running \<^verbatim>\<open>initialize\<close> on the same manager. A task that
  finds the lock taken waits in \<^verbatim>\<open>async with self._initialization_lock\<close>; the scheduler
  picks which task runs to its next suspension point. \<open>spawned\<close> records every server
  process started, with the task that started it.
\<close>

datatype pc =
  Calling
| Resetting
| Building
| DoneEarly
| DoneOk
| DoneRaised

record 'task system =
  manager :: MCPClientManager
  pcs :: "'task \<Rightarrow> pc"
  spawned :: "('task \<times> string) list"

definition start_system :: "MCPClientManager \<Rightarrow> 'task system" where
  "start_system m = \<lparr>manager = m, pcs = (\<lambda>t. Calling), spawned = []\<rparr>"

definition step ::
  "environment \<Rightarrow> server_config list \<Rightarrow> 'task \<Rightarrow> 'task system \<Rightarrow> 'task system option" where
  "step e mcp_servers t s =
     (case pcs s t of
        Calling \<Rightarrow>
          if initialization_lock (manager s) then None
          else (case initialize_enter (manager s) of
                  (ReturnedEarly, m') \<Rightarrow> Some (s\<lparr>manager := m', pcs := (pcs s)(t := DoneEarly)\<rparr>)
                | (Proceeds, m') \<Rightarrow> Some (s\<lparr>manager := m', pcs := (pcs s)(t := Resetting)\<rparr>))
      | Resetting \<Rightarrow>
          Some (s\<lparr>manager := initialize_reset e (manager s), pcs := (pcs s)(t := Building)\<rparr>)
      | Building \<Rightarrow>
          (let started =
                 processes_of
                   (snd (load_servers e mcp_servers ((manager s)\<lparr>stack := Some []\<rparr>)))
           in case initialize_build e mcp_servers (manager s) of
                (None, m') \<Rightarrow>
                  Some (s\<lparr>manager := m', pcs := (pcs s)(t := DoneOk),
                          spawned := spawned s @ map (Pair t) started\<rparr>)
              | (Some err, m') \<Rightarrow>
                  Some (s\<lparr>manager := m', pcs := (pcs s)(t := DoneRaised),
                          spawned := spawned s @ map (Pair t) started\<rparr>))
      | DoneEarly \<Rightarrow> None
      | DoneOk \<Rightarrow> None
      | DoneRaised \<Rightarrow> None)"

text \<open>A schedule names the task to run next; a task that cannot run is passed over.\<close>

fun run_schedule ::
  "environment \<Rightarrow> server_config list \<Rightarrow> 'task list \<Rightarrow> 'task system \<Rightarrow> 'task system" where
  "run_schedule e mcp_servers [] s = s"
| "run_schedule e mcp_servers (t # ts) s =
     (case step e mcp_servers t s of
        None \<Rightarrow> run_schedule e mcp_servers ts s
      | Some s' \<Rightarrow> run_schedule e mcp_servers ts s')"

inductive reaches ::
  "environment \<Rightarrow> server_config list \<Rightarrow> MCPClientManager \<Rightarrow> 'task system \<Rightarrow> bool"
  for e :: environment and mcp_servers :: "server_config list" and m :: MCPClientManager
where
  reaches_start: "reaches e mcp_servers m (start_system m)"
| reaches_step:
    "reaches e mcp_servers m s \<Longrightarrow> step e mcp_servers t s = Some s'
       \<Longrightarrow> reaches e mcp_servers m s'"


section \<open>Auxiliary definitions used in the statements\<close>

text \<open>The session that \<^verbatim>\<open>get_or_create_session\<close> hands to \<^verbatim>\<open>add_message\<close>.\<close>

definition session_before :: "clock \<Rightarrow> string \<Rightarrow> ConversationManager \<Rightarrow> ConversationSession" where
  "session_before clk sid sessions =
     (case map_of sessions sid of
        None \<Rightarrow> new_session sid (now_created clk) (now_first_activity clk)
      | Some s \<Rightarrow> s)"

text \<open>The message that \<^verbatim>\<open>session.add_message("user", query)\<close> appends.\<close>

definition user_message :: "clock \<Rightarrow> string \<Rightarrow> ConversationMessage" where
  "user_message clk query =
     \<lparr>role = ''user'', content = query, agent_type = None, timestamp = now_message clk\<rparr>"

text \<open>Values for the examples: a state with no session and no activity, and a clock.\<close>

definition state0 :: exec_state where
  "state0 = \<lparr>tool_logger = ToolUseLogger_init, conversation_manager = [],
             mongodb_server = \<lparr>reachable = True, activities_collection = [], next_object_id = 0\<rparr>\<rparr>"

definition clock0 :: "int \<Rightarrow> clock" where
  "clock0 t = \<lparr>now_created = t, now_first_activity = t, now_message = t, now_activity = t\<rparr>"

text \<open>A state in which the session \<^verbatim>\<open>s1\<close> holds one earlier message of the user.\<close>

definition state_with_history :: exec_state where
  "state_with_history =
     state0\<lparr>conversation_manager :=
              [(''s1'', add_message 1 1 ''user'' ''hello'' None (new_session ''s1'' 0 0))]\<rparr>"

text \<open>The tools that the servers of a list expose, in the order of the list.\<close>

definition discovered :: "environment \<Rightarrow> server_config list \<Rightarrow> mcp_tool list" where
  "discovered e cfgs =
     concat (map (\<lambda>cfg. case server e cfg of Exposes tools \<Rightarrow> tools | _ \<Rightarrow> []) cfgs)"

text \<open>The servers of a list whose process is started.\<close>

definition started :: "environment \<Rightarrow> server_config list \<Rightarrow> string list" where
  "started e cfgs = map cfg_id (filter (\<lambda>cfg. server e cfg \<noteq> SpawnFails) cfgs)"

text \<open>
  A configuration whose parameters are constructed and whose \<^verbatim>\<open>args\<close> has a first
  element, so that no statement outside the two \<^verbatim>\<open>try\<close> blocks of the loop raises for it.
\<close>

definition loadable :: "environment \<Rightarrow> server_config \<Rightarrow> bool" where
  "loadable e cfg \<longleftrightarrow> stdio_parameters e cfg = None \<and> args cfg \<noteq> []"

text \<open>Values for the examples: a server configuration, a tool, and environments.\<close>

definition server_named :: "string \<Rightarrow> server_config" where
  "server_named i = \<lparr>cfg_id = i, command = ''python'', args = [i @ ''_server.py''], env = []\<rparr>"

definition tool_named :: "string \<Rightarrow> mcp_tool" where
  "tool_named n = \<lparr>t_name = n, t_description = []\<rparr>"

definition environment_of :: "(string \<Rightarrow> server_behaviour) \<Rightarrow> environment" where
  "environment_of f =
     \<lparr>stdio_parameters = (\<lambda>cfg. None), server = (\<lambda>cfg. f (cfg_id cfg)),
      stack_exit = (\<lambda>processes. ExitCompletes),
      agent_creation = (\<lambda>tools. AgentsCreated)\<rparr>"

text \<open>The tracker state when the awaited agent call ends: all its callbacks have run.\<close>

definition tracking_after :: "agent_run \<Rightarrow> exec_state \<Rightarrow> tracking" where
  "tracking_after run st = fold run_callback (fst run) (tool_logger st, mongodb_server st)"

text \<open>The tasks that hold the lock of \<^verbatim>\<open>initialize\<close>.\<close>

definition inside :: "pc \<Rightarrow> bool" where
  "inside p = (p = Resetting \<or> p = Building)"


text \<open>An activity document with the given status and output.\<close>

definition doc_marked :: "mongodb \<Rightarrow> nat \<Rightarrow> string \<Rightarrow> string \<Rightarrow> bool" where
  "doc_marked db i st outp =
     (case map_of (activities_collection db) i of
        None \<Rightarrow> False
      | Some d \<Rightarrow> status d = st \<and> tool_output d = Some outp)"

text \<open>
  Values for the examples: a call of the tool \<^verbatim>\<open>search\<close>, the keyword arguments with which
  its end is reported, a policy engine that asks for one call and then runs into the
  timeout, and one whose single LLM response asks for the tool twice, sees both calls
  end, and returns.
\<close>

definition search_call :: function_call where
  "search_call = \<lparr>fc_name = Some ''search'', fc_arguments = ''{}''\<rparr>"

definition search_kwargs :: tool_kwargs where
  "search_kwargs = \<lparr>kw_name = Some ''search'', kw_tool_name = None, kw_serialized_name = None\<rparr>"

definition slow_engine :: policy_engine where
  "slow_engine q =
     ([LLMEnd [[\<lparr>gen_function_call = Some search_call, gen_tool_calls = []\<rparr>]]], TimedOut)"

definition twice_engine :: policy_engine where
  "twice_engine q =
     ([LLMEnd [[\<lparr>gen_function_call = None, gen_tool_calls = [search_call, search_call]\<rparr>]],
       ToolEnd ''first result'' search_kwargs,
       ToolEnd ''second result'' search_kwargs],
      Returned (ResultDict [(''output'', ''done'')] ''{}''))"

text \<open>
  What holds in every state of concurrent \<^verbatim>\<open>initialize\<close> calls: the lock is held exactly
  while some task is inside, the flag is set exactly while the lock is held, at most one
  task is inside, and no task has returned early.
\<close>

definition single_flight_invariant :: "'task system \<Rightarrow> bool" where
  "single_flight_invariant s \<longleftrightarrow>
     (initialization_lock (manager s) \<longleftrightarrow> (\<exists>t. inside (pcs s t)))
     \<and> (is_initializing (manager s) \<longleftrightarrow> initialization_lock (manager s))
     \<and> (\<forall>t t'. inside (pcs s t) \<and> inside (pcs s t') \<longrightarrow> t = t')
     \<and> (\<forall>t. pcs s t \<noteq> DoneEarly)"

section \<open>Bounded history\<close>

lemma messages_add_message:
  "messages (add_message t_msg t_act r c a s) =
     slice_last MAX_CONVERSATION_MESSAGES
       (messages s @ [\<lparr>role = r, content = c, agent_type = a, timestamp = t_msg\<rparr>])"
  by (simp add: add_message_def slice_last_def MAX_CONVERSATION_MESSAGES_def Let_def)

lemma slice_last_append_slice_last:
  "0 < n \<Longrightarrow> slice_last n (slice_last n xs @ [x]) = slice_last n (xs @ [x])"
proof (cases "n \<le> length xs")
  case True
  assume "0 < n"
  with True have "Suc (length xs) - (length xs - n + n) + (length xs - n) = Suc (length xs) - n"
    by arith
  with \<open>0 < n\<close> show ?thesis by (simp add: slice_last_def)
next
  case False
  then show ?thesis by (simp add: slice_last_def)
qed

lemma messages_add_messages:
  "messages (add_messages cs s) =
     (if cs = [] then messages s
      else slice_last MAX_CONVERSATION_MESSAGES (messages s @ map message_of cs))"
proof (induction cs rule: rev_induct)
  case Nil
  show ?case by (simp add: add_messages_def)
next
  case (snoc c cs)
  have K: "0 < MAX_CONVERSATION_MESSAGES"
    by (simp add: MAX_CONVERSATION_MESSAGES_def)
  have step: "messages (add_messages (cs @ [c]) s) =
     slice_last MAX_CONVERSATION_MESSAGES (messages (add_messages cs s) @ [message_of c])"
    by (simp add: add_messages_def apply_append_def messages_add_message message_of_def)
  show ?case
  proof (cases "cs = []")
    case True
    then show ?thesis using step by (simp add: add_messages_def)
  next
    case False
    then have "messages (add_messages (cs @ [c]) s) =
        slice_last MAX_CONVERSATION_MESSAGES
          (slice_last MAX_CONVERSATION_MESSAGES (messages s @ map message_of cs) @ [message_of c])"
      using step snoc.IH by simp
    also have "\<dots> = slice_last MAX_CONVERSATION_MESSAGES
          ((messages s @ map message_of cs) @ [message_of c])"
      by (rule slice_last_append_slice_last [OF K])
    finally show ?thesis by simp
  qed
qed

text \<open>
  C6. After any sequence of \<^verbatim>\<open>add_message\<close> calls on a freshly constructed session the
  history holds at most K = 10 messages; every single append (on any session) leaves at
  most K messages and stores its clock reading in \<^verbatim>\<open>last_activity\<close>; and after more than
  K appends the history is exactly the K most recently appended messages, in the order in
  which they were appended.
\<close>

theorem bounded_history:
  "length (messages (add_messages cs (new_session sid t0 t1))) \<le> MAX_CONVERSATION_MESSAGES
   \<and> length (messages (add_message t_msg t_act r c a s)) \<le> MAX_CONVERSATION_MESSAGES
   \<and> last_activity (add_message t_msg t_act r c a s) = t_act
   \<and> (length cs > MAX_CONVERSATION_MESSAGES \<longrightarrow>
        length (messages (add_messages cs (new_session sid t0 t1))) = MAX_CONVERSATION_MESSAGES
        \<and> messages (add_messages cs (new_session sid t0 t1)) =
            drop (length cs - MAX_CONVERSATION_MESSAGES) (map message_of cs))"
proof -
  have m: "messages (add_messages cs (new_session sid t0 t1)) =
             slice_last MAX_CONVERSATION_MESSAGES (map message_of cs)"
    by (cases "cs = []")
       (simp_all add: messages_add_messages new_session_def slice_last_def)
  have a: "length (messages (add_messages cs (new_session sid t0 t1))) \<le> MAX_CONVERSATION_MESSAGES"
    unfolding m by (simp add: slice_last_def MAX_CONVERSATION_MESSAGES_def)
  have b: "length (messages (add_message t_msg t_act r c a s)) \<le> MAX_CONVERSATION_MESSAGES"
    unfolding messages_add_message by (simp add: slice_last_def MAX_CONVERSATION_MESSAGES_def)
  have c: "last_activity (add_message t_msg t_act r c a s) = t_act"
    by (simp add: add_message_def Let_def)
  have d: "length cs > MAX_CONVERSATION_MESSAGES \<longrightarrow>
        length (messages (add_messages cs (new_session sid t0 t1))) = MAX_CONVERSATION_MESSAGES
        \<and> messages (add_messages cs (new_session sid t0 t1)) =
            drop (length cs - MAX_CONVERSATION_MESSAGES) (map message_of cs)"
    unfolding m by (simp add: slice_last_def MAX_CONVERSATION_MESSAGES_def)
  from a b c d show ?thesis by blast
qed


theorem bounded_history_witness:
  "length (map (\<lambda>n. \<lparr>ac_t_msg = int n, ac_t_act = int n + 1, ac_role = ''user'',
                        ac_content = ''hello'', ac_agent_type = None\<rparr>) [0..<11])
     > MAX_CONVERSATION_MESSAGES
   \<and> length (messages (add_messages
        (map (\<lambda>n. \<lparr>ac_t_msg = int n, ac_t_act = int n + 1, ac_role = ''user'',
                     ac_content = ''hello'', ac_agent_type = None\<rparr>) [0..<11])
        (new_session ''s'' 0 0))) = 10
   \<and> map timestamp (messages (add_messages
        (map (\<lambda>n. \<lparr>ac_t_msg = int n, ac_t_act = int n + 1, ac_role = ''user'',
                     ac_content = ''hello'', ac_agent_type = None\<rparr>) [0..<11])
        (new_session ''s'' 0 0))) = [1, 2, 3, 4, 5, 6, 7, 8, 9, 10]"
proof -
  let ?cs = "map (\<lambda>n. \<lparr>ac_t_msg = int n, ac_t_act = int n + 1, ac_role = ''user'',
                        ac_content = ''hello'', ac_agent_type = None\<rparr>) [0..<11]"
  have len: "length ?cs > MAX_CONVERSATION_MESSAGES"
    by (simp add: MAX_CONVERSATION_MESSAGES_def)
  have up: "[0..<11] = [0, 1, 2, 3, 4, 5, 6, 7, 8, 9, 10::nat]"
    by (simp add: upt_rec)
  from len bounded_history [of ?cs "''s''" 0 0]
  have "length (messages (add_messages ?cs (new_session ''s'' 0 0))) = MAX_CONVERSATION_MESSAGES"
   and "messages (add_messages ?cs (new_session ''s'' 0 0)) =
          drop (length ?cs - MAX_CONVERSATION_MESSAGES) (map message_of ?cs)"
    by blast+
  then show ?thesis using len
    by (simp add: MAX_CONVERSATION_MESSAGES_def message_of_def up)
qed


section \<open>Execution: the query given to the policy engine and the conversation history\<close>

lemma last_slice_last_snoc:
  "slice_last n (xs @ [x]) \<noteq> [] \<and> last (slice_last n (xs @ [x])) = x"
  by (cases "n = 0") (auto simp: slice_last_def)

lemma add_message_last:
  "messages (add_message t_msg t_act r c a s) \<noteq> []
   \<and> last (messages (add_message t_msg t_act r c a s)) =
       \<lparr>role = r, content = c, agent_type = a, timestamp = t_msg\<rparr>"
  unfolding messages_add_message by (rule last_slice_last_snoc)

lemma session_add_message_eq:
  "session_add_message clk sid r c a sessions =
     (add_message (now_message clk) (now_activity clk) r c a (session_before clk sid sessions),
      AList.update sid
        (add_message (now_message clk) (now_activity clk) r c a (session_before clk sid sessions))
        sessions)"
  by (simp add: session_add_message_def get_or_create_session_def session_before_def Let_def
      split: option.splits)


lemma join_Cons:
  "join sep (x # xs) = x @ (if xs = [] then [] else sep @ join sep xs)"
  by (cases xs) simp_all

lemma get_context_string_nonempty:
  "messages s \<noteq> [] \<Longrightarrow> get_context_string s \<noteq> []"
  by (simp add: get_context_string_def join_Cons)

lemma prepare_execution_with_session:
  assumes "sid \<noteq> []"
  shows "prepare_execution query (Some sid) aid wid clk st =
     (get_context_string (fst (session_add_message clk sid ''user'' query None (conversation_manager st)))
        @ newline @ newline @ ''Current user message: '' @ query,
      st\<lparr>tool_logger := (if truthy_int aid \<and> truthy_int wid
                          then set_context (the aid) (the wid) (reset (tool_logger st))
                          else reset (tool_logger st)),
         conversation_manager := snd (session_add_message clk sid ''user'' query None (conversation_manager st))\<rparr>)"
proof -
  have ne: "get_context_string (fst (session_add_message clk sid ''user'' query None (conversation_manager st))) \<noteq> []"
    by (simp add: session_add_message_eq get_context_string_nonempty add_message_last)
  obtain session sessions' where sa:
    "session_add_message clk sid ''user'' query None (conversation_manager st) = (session, sessions')"
    by (cases "session_add_message clk sid ''user'' query None (conversation_manager st)")
  show ?thesis
    using assms ne
    by (simp add: prepare_execution_def truthy_str_def Let_def sa)
qed


text \<open>
  C8 (as the code has it). \<^verbatim>\<open>get_context_string\<close> is empty for a session without
  messages; otherwise it is the header line, one line for each of the last K messages in
  their order, and the closing line, joined by newlines. When the execution is given a
  session id, the user's query is appended to the session first; the context is rendered
  from the session after that append, so it is never empty and the query is its last
  message; and the policy engine is invoked on that context string followed by a blank
  line, the label \<^verbatim>\<open>Current user message: \<close> and the user's query.
\<close>

theorem context_then_labelled_query:
  "(messages s = [] \<longrightarrow> get_context_string s = [])
   \<and> (messages s \<noteq> [] \<longrightarrow>
        get_context_string s =
          join newline (''Previous conversation context:''
                        # map render_message (slice_last MAX_CONVERSATION_MESSAGES (messages s))
                        @ [''---'']))
   \<and> (sid \<noteq> [] \<longrightarrow>
        last (messages (add_message (now_message clk_user) (now_activity clk_user) ''user'' query
                          None (session_before clk_user sid (conversation_manager st))))
          = user_message clk_user query
        \<and> get_context_string
             (add_message (now_message clk_user) (now_activity clk_user) ''user'' query
                None (session_before clk_user sid (conversation_manager st))) \<noteq> []
        \<and> execute_agent_with_context engine query (Some sid) aid wid clk_user clk_reply st =
            finish_execution
              (engine (get_context_string
                         (add_message (now_message clk_user) (now_activity clk_user) ''user'' query
                            None (session_before clk_user sid (conversation_manager st)))
                       @ newline @ newline @ ''Current user message: '' @ query))
              (Some sid) clk_reply
              (snd (prepare_execution query (Some sid) aid wid clk_user st)))"
proof -
  let ?s' = "add_message (now_message clk_user) (now_activity clk_user) ''user'' query
               None (session_before clk_user sid (conversation_manager st))"
  have a: "messages s = [] \<longrightarrow> get_context_string s = []"
    by (simp add: get_context_string_def)
  have b: "messages s \<noteq> [] \<longrightarrow>
        get_context_string s =
          join newline (''Previous conversation context:''
                        # map render_message (slice_last MAX_CONVERSATION_MESSAGES (messages s))
                        @ [''---''])"
    by (simp add: get_context_string_def)
  have l: "last (messages ?s') = user_message clk_user query"
    by (simp add: add_message_last user_message_def)
  have n: "get_context_string ?s' \<noteq> []"
    by (simp add: get_context_string_nonempty add_message_last)
  have c: "sid \<noteq> [] \<longrightarrow>
        execute_agent_with_context engine query (Some sid) aid wid clk_user clk_reply st =
            finish_execution
              (engine (get_context_string ?s'
                       @ newline @ newline @ ''Current user message: '' @ query))
              (Some sid) clk_reply
              (snd (prepare_execution query (Some sid) aid wid clk_user st))"
    by (simp add: execute_agent_with_context_def prepare_execution_with_session
        session_add_message_eq)
  from a b l n c show ?thesis by blast
qed

theorem context_then_labelled_query_witness:
  "get_context_string (new_session ''s1'' 0 0) = []
   \<and> fst (execute_agent_with_context (\<lambda>q. ([], Raised q)) ''hi'' (Some ''s1'') None None
            (clock0 5) (clock0 6) state0)
      = Inl (Exception (''Previous conversation context:'' @ newline @ ''User: hi'' @ newline
                        @ ''---'' @ newline @ newline @ ''Current user message: hi''))"
proof -
  let ?s' = "add_message (now_message (clock0 5)) (now_activity (clock0 5)) ''user'' ''hi''
               None (session_before (clock0 5) ''s1'' (conversation_manager state0))"
  have m: "messages (new_session ''s1'' 0 0) = []"
    by (simp add: new_session_def)
  have ctx: "get_context_string ?s'
             = ''Previous conversation context:'' @ newline @ ''User: hi'' @ newline @ ''---''"
    by (simp add: session_before_def state0_def clock0_def new_session_def
        add_message_def MAX_CONVERSATION_MESSAGES_def get_context_string_def slice_last_def
        render_message_def Let_def)
  have ne: "''s1'' \<noteq> []"
    by simp
  from context_then_labelled_query [of "new_session ''s1'' 0 0" "''s1''" "clock0 5" "''hi''" state0
         "\<lambda>q. ([], Raised q)" None None "clock0 6"] m ne
  have "get_context_string (new_session ''s1'' 0 0) = []"
   and "execute_agent_with_context (\<lambda>q. ([], Raised q)) ''hi'' (Some ''s1'') None None
            (clock0 5) (clock0 6) state0 =
        finish_execution
            ([], Raised (get_context_string ?s'
                    @ newline @ newline @ ''Current user message: '' @ ''hi''))
            (Some ''s1'') (clock0 6)
            (snd (prepare_execution ''hi'' (Some ''s1'') None None (clock0 5) state0))"
    by blast+
  then show ?thesis
    unfolding ctx
    by (simp add: finish_execution_def update_pending_tool_activities_def Let_def)
qed

text \<open>
  C8 as stated fails. The session \<^verbatim>\<open>s1\<close> holds one earlier message, so its context is
  not empty when the execution is called with the query \<^verbatim>\<open>hi\<close>. The engine (which here
  raises its input, so that the input shows in the result) is not invoked on that
  context followed by the query: its input is the context rendered after the query was
  appended, then the blank line and the label, then the query.
\<close>

theorem engine_input_is_not_context_plus_query:
  "get_context_string (the (map_of (conversation_manager state_with_history) ''s1''))
     = ''Previous conversation context:'' @ newline @ ''User: hello'' @ newline @ ''---''
   \<and> fst (execute_agent_with_context (\<lambda>q. ([], Raised q)) ''hi'' (Some ''s1'') None None
            (clock0 5) (clock0 6) state_with_history)
      = Inl (Exception (''Previous conversation context:'' @ newline @ ''User: hello'' @ newline
                        @ ''User: hi'' @ newline @ ''---'' @ newline @ newline
                        @ ''Current user message: hi''))
   \<and> fst (execute_agent_with_context (\<lambda>q. ([], Raised q)) ''hi'' (Some ''s1'') None None
            (clock0 5) (clock0 6) state_with_history)
      \<noteq> Inl (Exception
               (get_context_string (the (map_of (conversation_manager state_with_history) ''s1''))
                @ ''hi''))"
  by code_simp






section \<open>Expiry of conversation sessions\<close>

lemma fold_delete_filter:
  "fold AList.delete ks al = filter (\<lambda>(k, v). k \<notin> set ks) al"
proof (induction ks arbitrary: al)
  case Nil
  show ?case by simp
next
  case (Cons k ks)
  have "filter (\<lambda>(k', v). k' \<notin> set ks) (AList.delete k al) =
        filter (\<lambda>(k', v). k' \<notin> set (k # ks)) al"
    by (induction al) (auto simp: AList.delete_eq)
  with Cons.IH [of "AList.delete k al"] show ?case by simp
qed

lemma cleanup_expired_sessions_filter:
  assumes "distinct (map fst sessions)"
  shows "cleanup_expired_sessions now sessions = filter (\<lambda>(sid, s). \<not> is_expired now s) sessions"
proof -
  have "\<And>k v. (k, v) \<in> set sessions \<Longrightarrow>
          (k \<in> set (map fst (filter (\<lambda>(sid, s). is_expired now s) sessions))) = is_expired now v"
  proof -
    fix k v assume kv: "(k, v) \<in> set sessions"
    show "(k \<in> set (map fst (filter (\<lambda>(sid, s). is_expired now s) sessions))) = is_expired now v"
    proof
      assume "k \<in> set (map fst (filter (\<lambda>(sid, s). is_expired now s) sessions))"
      then obtain v' where "(k, v') \<in> set sessions" and ex: "is_expired now v'" by auto
      with kv assms have "v' = v" by (meson eq_key_imp_eq_value)
      with ex show "is_expired now v" by simp
    next
      assume "is_expired now v"
      with kv show "k \<in> set (map fst (filter (\<lambda>(sid, s). is_expired now s) sessions))"
        by force
    qed
  qed
  then have "filter (\<lambda>(k, v). k \<notin> set (map fst (filter (\<lambda>(sid, s). is_expired now s) sessions))) sessions
           = filter (\<lambda>(sid, s). \<not> is_expired now s) sessions"
    by (intro filter_cong) auto
  then show ?thesis
    by (simp add: cleanup_expired_sessions_def fold_delete_filter)
qed

lemma map_of_filter_distinct:
  assumes "distinct (map fst al)"
  shows "map_of (filter (\<lambda>(k, v). P v) al) k =
           (case map_of al k of None \<Rightarrow> None | Some v \<Rightarrow> if P v then Some v else None)"
  using assms
proof (induction al)
  case Nil
  show ?case by simp
next
  case (Cons a al)
  obtain k' v' where a: "a = (k', v')" by (cases a)
  from Cons.prems a have nk: "k' \<notin> fst ` set al" and d: "distinct (map fst al)" by auto
  from nk have none: "map_of al k' = None" by (simp add: map_of_eq_None_iff)
  show ?case
    using Cons.IH [OF d] a none by (auto split: option.splits)
qed

text \<open>
  C9 (as the code has it). \<^verbatim>\<open>cleanup_expired_sessions\<close> removes exactly the sessions whose
  \<^verbatim>\<open>last_activity\<close> lies more than 24 hours before the clock reading, and keeps every
  other session unchanged. It takes no task table: whether a session has an execution
  in flight plays no part.
\<close>

theorem sweep_expired_exactly:
  assumes "distinct (map fst sessions)"
  shows "map_of (cleanup_expired_sessions now sessions) sid =
           (case map_of sessions sid of
              None \<Rightarrow> None
            | Some s \<Rightarrow> if now - last_activity s > timedelta_hours 24 then None else Some s)"
  by (simp add: cleanup_expired_sessions_filter [OF assms] map_of_filter_distinct [OF assms]
      is_expired_def CONVERSATION_CLEANUP_HOURS_def split: option.splits)

theorem sweep_expired_exactly_witness:
  "distinct (map fst [(''old'', new_session ''old'' 0 0),
                      (''new'', new_session ''new'' 0 (timedelta_hours 2))])
   \<and> map_of (cleanup_expired_sessions (timedelta_hours 25)
        [(''old'', new_session ''old'' 0 0),
         (''new'', new_session ''new'' 0 (timedelta_hours 2))]) ''old'' = None
   \<and> map_of (cleanup_expired_sessions (timedelta_hours 25)
        [(''old'', new_session ''old'' 0 0),
         (''new'', new_session ''new'' 0 (timedelta_hours 2))]) ''new''
       = Some (new_session ''new'' 0 (timedelta_hours 2))"
proof -
  have d: "distinct (map fst [(''old'', new_session ''old'' 0 0),
                      (''new'', new_session ''new'' 0 (timedelta_hours 2))])"
    by simp
  show ?thesis
    using d sweep_expired_exactly [OF d, of "timedelta_hours 25" "''old''"]
      sweep_expired_exactly [OF d, of "timedelta_hours 25" "''new''"]
    by (simp add: new_session_def timedelta_hours_def)
qed

text \<open>
  C9 as stated fails: a session for which a task that is not done is registered, and
  whose last activity is 25 hours old, is removed by the sweep.
\<close>

theorem sweep_removes_in_flight_session:
  "in_flight (register_task ''s1'' \<lparr>task_done = False\<rparr> []) ''s1''
   \<and> map_of [(''s1'', new_session ''s1'' 0 0)] ''s1'' = Some (new_session ''s1'' 0 0)
   \<and> map_of (cleanup_expired_sessions (timedelta_hours 25) [(''s1'', new_session ''s1'' 0 0)]) ''s1''
       = None"
  by (simp add: in_flight_def register_task_def cleanup_expired_sessions_def is_expired_def
      new_session_def timedelta_hours_def CONVERSATION_CLEANUP_HOURS_def)

section \<open>Building the tool set\<close>

lemma discovered_Nil [simp]: "discovered e [] = []"
  by (simp add: discovered_def)

lemma discovered_Cons:
  "discovered e (cfg # cfgs) =
     (case server e cfg of Exposes tools \<Rightarrow> tools | _ \<Rightarrow> []) @ discovered e cfgs"
  by (simp add: discovered_def)

lemma discovered_append: "discovered e (xs @ ys) = discovered e xs @ discovered e ys"
  by (simp add: discovered_def)

lemma load_servers_result:
  "stack m = Some ps \<Longrightarrow> \<forall>cfg \<in> set cfgs. loadable e cfg \<Longrightarrow>
     fst (load_servers e cfgs m) = None
     \<and> all_tools (snd (load_servers e cfgs m)) = all_tools m @ discovered e cfgs
     \<and> stack (snd (load_servers e cfgs m)) = Some (ps @ started e cfgs)"
proof (induction cfgs arbitrary: m ps)
  case Nil
  then show ?case by (simp add: started_def)
next
  case (Cons cfg cfgs)
  from Cons.prems have ok: "stdio_parameters e cfg = None" "args cfg \<noteq> []"
    and rest: "\<forall>c \<in> set cfgs. loadable e c"
    by (simp_all add: loadable_def)
  show ?case
  proof (cases "server e cfg")
    case SpawnFails
    with Cons.prems(1) ok Cons.IH [OF _ rest, of m ps] show ?thesis
      by (simp add: discovered_Cons started_def)
  next
    case HandshakeFails
    with Cons.prems(1) ok
      Cons.IH [OF _ rest, of "m\<lparr>stack := Some (ps @ [cfg_id cfg])\<rparr>" "ps @ [cfg_id cfg]"]
    show ?thesis by (simp add: discovered_Cons started_def)
  next
    case ToolLoadFails
    with Cons.prems(1) ok
      Cons.IH [OF _ rest, of "m\<lparr>stack := Some (ps @ [cfg_id cfg])\<rparr>" "ps @ [cfg_id cfg]"]
    show ?thesis by (simp add: discovered_Cons started_def)
  next
    case (Exposes tools)
    with Cons.prems(1) ok
      Cons.IH [OF _ rest, of "m\<lparr>stack := Some (ps @ [cfg_id cfg]),
                      server_tools := AList.update (cfg_id cfg) tools (server_tools m),
                      all_tools := all_tools m @ tools\<rparr>" "ps @ [cfg_id cfg]"]
    show ?thesis by (simp add: discovered_Cons started_def)
  qed
qed

lemma build_tool_set_result:
  assumes "\<forall>cfg \<in> set cfgs. loadable e cfg"
  shows "build_tool_set e cfgs m =
     (if all_tools m @ discovered e cfgs = [] then Inl NoToolsAvailable
      else Inr (snd (load_servers e cfgs (m\<lparr>stack := Some []\<rparr>))))"
proof -
  obtain err m1 where l: "load_servers e cfgs (m\<lparr>stack := Some []\<rparr>) = (err, m1)"
    by (cases "load_servers e cfgs (m\<lparr>stack := Some []\<rparr>)")
  with load_servers_result [OF _ assms, of "m\<lparr>stack := Some []\<rparr>" "[]"]
  show ?thesis by (simp add: build_tool_set_def)
qed

lemma all_fail_discovered:
  "(\<forall>cfg \<in> set cfgs. \<forall>tools. server e cfg \<noteq> Exposes tools) \<Longrightarrow> discovered e cfgs = []"
  by (induction cfgs) (auto simp: discovered_Cons split: server_behaviour.splits)

text \<open>
  What the loop does with a configuration that is not loadable: the exception leaves the
  loop and the build, whatever the servers after it would have done.
\<close>

lemma build_aborts_on_parameters:
  "stdio_parameters e cfg = Some msg \<Longrightarrow>
     build_tool_set e (cfg # cfgs) m = Inl (ValidationError msg)"
  by (simp add: build_tool_set_def)

lemma build_aborts_on_empty_args:
  "stdio_parameters e cfg = None \<Longrightarrow> args cfg = [] \<Longrightarrow>
     build_tool_set e (cfg # cfgs) m = Inl IndexError"
  by (simp add: build_tool_set_def Let_def split: server_behaviour.splits)

text \<open>
  C2 (as the code has it). In a build that starts without tools, over configurations
  that are all loadable, a server that fails to start, to initialise or to list its
  tools is skipped and the loop goes on with the servers after it: the loop ends without
  an exception, every server that can be started has been started, and the tool set is
  the concatenation of what the succeeding servers expose, in the order of the list. If
  every server fails the build fails with the error for an empty tool set, and so it
  does whenever nothing is discovered; if at least one tool is discovered the build
  succeeds with that tool set.
\<close>

theorem build_isolates_failures:
  assumes "all_tools m = []" and "\<forall>cfg \<in> set cfgs. loadable e cfg"
  shows "fst (load_servers e cfgs (m\<lparr>stack := Some []\<rparr>)) = None
         \<and> all_tools (snd (load_servers e cfgs (m\<lparr>stack := Some []\<rparr>))) = discovered e cfgs
         \<and> stack (snd (load_servers e cfgs (m\<lparr>stack := Some []\<rparr>))) = Some (started e cfgs)
         \<and> ((\<forall>cfg \<in> set cfgs. \<forall>tools. server e cfg \<noteq> Exposes tools) \<longrightarrow>
            build_tool_set e cfgs m = Inl NoToolsAvailable)
         \<and> (discovered e cfgs = [] \<longrightarrow> build_tool_set e cfgs m = Inl NoToolsAvailable)
         \<and> (discovered e cfgs \<noteq> [] \<longrightarrow>
              (\<exists>m'. build_tool_set e cfgs m = Inr m'
                    \<and> all_tools m' = discovered e cfgs
                    \<and> stack m' = Some (started e cfgs)))"
proof -
  have r: "build_tool_set e cfgs m =
     (if discovered e cfgs = [] then Inl NoToolsAvailable
      else Inr (snd (load_servers e cfgs (m\<lparr>stack := Some []\<rparr>))))"
    using assms by (simp add: build_tool_set_result)
  have l: "fst (load_servers e cfgs (m\<lparr>stack := Some []\<rparr>)) = None
           \<and> all_tools (snd (load_servers e cfgs (m\<lparr>stack := Some []\<rparr>))) = discovered e cfgs
           \<and> stack (snd (load_servers e cfgs (m\<lparr>stack := Some []\<rparr>))) = Some (started e cfgs)"
    using assms load_servers_result [OF _ assms(2), of "m\<lparr>stack := Some []\<rparr>" "[]"] by simp
  show ?thesis
    using r l all_fail_discovered [of cfgs e] by auto
qed

theorem build_isolates_failures_witness:
  "all_tools MCPClientManager_init = []
   \<and> loadable (environment_of (\<lambda>i. SpawnFails)) (server_named ''a'')
   \<and> loadable (environment_of (\<lambda>i. SpawnFails)) (server_named ''b'')
   \<and> build_tool_set (environment_of (\<lambda>i. SpawnFails)) [server_named ''a'', server_named ''b'']
       MCPClientManager_init = Inl NoToolsAvailable
   \<and> (\<exists>m'. build_tool_set
              (environment_of (\<lambda>i. if i = ''b'' then Exposes [tool_named ''ping''] else SpawnFails))
              [server_named ''a'', server_named ''b''] MCPClientManager_init = Inr m'
            \<and> all_tools m' = [tool_named ''ping''] \<and> stack m' = Some [''b''])"
proof -
  have h: "all_tools MCPClientManager_init = []"
    by (simp add: MCPClientManager_init_def)
  let ?e1 = "environment_of (\<lambda>i. SpawnFails)"
  let ?e2 = "environment_of (\<lambda>i. if i = ''b'' then Exposes [tool_named ''ping''] else SpawnFails)"
  let ?cfgs = "[server_named ''a'', server_named ''b'']"
  have l1: "\<forall>cfg \<in> set ?cfgs. loadable ?e1 cfg"
    by (simp add: loadable_def environment_of_def server_named_def)
  have l2: "\<forall>cfg \<in> set ?cfgs. loadable ?e2 cfg"
    by (simp add: loadable_def environment_of_def server_named_def)
  have f: "\<forall>cfg \<in> set ?cfgs. \<forall>tools. server ?e1 cfg \<noteq> Exposes tools"
    by (simp add: environment_of_def)
  have d: "discovered ?e2 ?cfgs = [tool_named ''ping'']"
    by (simp add: discovered_def environment_of_def server_named_def)
  have s: "started ?e2 ?cfgs = [''b'']"
    by (simp add: started_def environment_of_def server_named_def)
  from build_isolates_failures [OF h l1] f
  have a: "build_tool_set ?e1 ?cfgs MCPClientManager_init = Inl NoToolsAvailable"
    by blast
  from build_isolates_failures [OF h l2] d s
  have b: "\<exists>m'. build_tool_set ?e2 ?cfgs MCPClientManager_init = Inr m'
            \<and> all_tools m' = [tool_named ''ping''] \<and> stack m' = Some [''b'']"
    by simp
  from l1 have "loadable ?e1 (server_named ''a'')" and "loadable ?e1 (server_named ''b'')"
    by simp_all
  with h a b show ?thesis by blast
qed

text \<open>
  C2 as stated fails: a server that starts, initialises and lists no tool succeeds, and
  the build over it alone fails.
\<close>

theorem build_fails_though_server_succeeds:
  "server (environment_of (\<lambda>i. Exposes [])) (server_named ''a'') = Exposes []
   \<and> build_tool_set (environment_of (\<lambda>i. Exposes [])) [server_named ''a''] MCPClientManager_init
       = Inl NoToolsAvailable"
  by (simp add: environment_of_def build_tool_set_def MCPClientManager_init_def
      server_named_def)

lemma load_servers_never_duplicate_error:
  "fst (load_servers e cfgs m) \<noteq> Some (DuplicateOperation n)"
  by (induction e cfgs m rule: load_servers.induct)
     (auto simp: Let_def split: option.splits server_behaviour.splits)

lemma build_never_duplicate_error:
  "build_tool_set e cfgs m \<noteq> Inl (DuplicateOperation n)"
proof -
  obtain err m1 where l: "load_servers e cfgs (m\<lparr>stack := Some []\<rparr>) = (err, m1)"
    by (cases "load_servers e cfgs (m\<lparr>stack := Some []\<rparr>)")
  with load_servers_never_duplicate_error [of e cfgs "m\<lparr>stack := Some []\<rparr>" n]
  show ?thesis
    by (cases err) (simp_all add: build_tool_set_def NoToolsAvailable_def)
qed

text \<open>
  C3 (as the code has it). A build never fails with a duplicate-operation error; when
  two servers of a list of loadable configurations expose tools of the same name, a
  build that starts without tools succeeds and its tool set holds all discovered tools,
  that name at least twice.
\<close>

theorem duplicate_names_aggregated:
  "build_tool_set e cfgs m \<noteq> Inl (DuplicateOperation n)
   \<and> (all_tools m = [] \<and> (\<forall>cfg \<in> set cfgs. loadable e cfg)
        \<and> cfgs = pre @ a # mid @ b # post
        \<and> server e a = Exposes tools_a \<and> server e b = Exposes tools_b
        \<and> x \<in> set tools_a \<and> y \<in> set tools_b \<and> t_name x = n \<and> t_name y = n \<longrightarrow>
        (\<exists>m'. build_tool_set e cfgs m = Inr m'
              \<and> all_tools m' = discovered e cfgs
              \<and> 2 \<le> length (filter (\<lambda>t. t_name t = n) (all_tools m'))))"
proof (intro conjI impI)
  show "build_tool_set e cfgs m \<noteq> Inl (DuplicateOperation n)"
    by (rule build_never_duplicate_error)
next
  assume h: "all_tools m = [] \<and> (\<forall>cfg \<in> set cfgs. loadable e cfg)
        \<and> cfgs = pre @ a # mid @ b # post
        \<and> server e a = Exposes tools_a \<and> server e b = Exposes tools_b
        \<and> x \<in> set tools_a \<and> y \<in> set tools_b \<and> t_name x = n \<and> t_name y = n"
  then have ld: "\<forall>cfg \<in> set cfgs. loadable e cfg" by blast
  from h have d: "discovered e cfgs =
      discovered e pre @ tools_a @ discovered e mid @ tools_b @ discovered e post"
    by (simp add: discovered_append discovered_Cons)
  from h have "filter (\<lambda>t. t_name t = n) tools_a \<noteq> []"
    and "filter (\<lambda>t. t_name t = n) tools_b \<noteq> []"
    by (auto simp: filter_empty_conv)
  then have "1 \<le> length (filter (\<lambda>t. t_name t = n) tools_a)"
    and "1 \<le> length (filter (\<lambda>t. t_name t = n) tools_b)"
    by (simp_all add: Suc_le_eq)
  then have two: "2 \<le> length (filter (\<lambda>t. t_name t = n) (discovered e cfgs))"
    unfolding d by simp
  from h have ne: "discovered e cfgs \<noteq> []"
    unfolding d by auto
  from h have at: "all_tools m = []" by blast
  have "build_tool_set e cfgs m = Inr (snd (load_servers e cfgs (m\<lparr>stack := Some []\<rparr>)))"
    using ne at by (simp add: build_tool_set_result [OF ld])
  moreover
  have "all_tools (snd (load_servers e cfgs (m\<lparr>stack := Some []\<rparr>))) = discovered e cfgs"
    using at load_servers_result [OF _ ld, of "m\<lparr>stack := Some []\<rparr>" "[]"] by simp
  ultimately show "\<exists>m'. build_tool_set e cfgs m = Inr m'
              \<and> all_tools m' = discovered e cfgs
              \<and> 2 \<le> length (filter (\<lambda>t. t_name t = n) (all_tools m'))"
    using two by simp
qed

theorem duplicate_names_aggregated_witness:
  "loadable (environment_of (\<lambda>i. Exposes [tool_named ''send''])) (server_named ''a'')
   \<and> loadable (environment_of (\<lambda>i. Exposes [tool_named ''send''])) (server_named ''b'')
   \<and> (\<exists>m'. build_tool_set (environment_of (\<lambda>i. Exposes [tool_named ''send'']))
           [server_named ''a'', server_named ''b''] MCPClientManager_init = Inr m'
        \<and> all_tools m' = [tool_named ''send'', tool_named ''send'']
        \<and> 2 \<le> length (filter (\<lambda>t. t_name t = ''send'') (all_tools m')))"
proof -
  let ?e = "environment_of (\<lambda>i. Exposes [tool_named ''send''])"
  have ld: "\<forall>cfg \<in> set [server_named ''a'', server_named ''b'']. loadable ?e cfg"
    by (simp add: loadable_def environment_of_def server_named_def)
  have h: "all_tools MCPClientManager_init = []
        \<and> (\<forall>cfg \<in> set [server_named ''a'', server_named ''b'']. loadable ?e cfg)
        \<and> [server_named ''a'', server_named ''b''] = [] @ server_named ''a'' # [] @ server_named ''b'' # []
        \<and> server ?e (server_named ''a'') = Exposes [tool_named ''send'']
        \<and> server ?e (server_named ''b'') = Exposes [tool_named ''send'']
        \<and> tool_named ''send'' \<in> set [tool_named ''send'']
        \<and> tool_named ''send'' \<in> set [tool_named ''send'']
        \<and> t_name (tool_named ''send'') = ''send'' \<and> t_name (tool_named ''send'') = ''send''"
    using ld by (simp add: MCPClientManager_init_def environment_of_def tool_named_def)
  have d: "discovered ?e [server_named ''a'', server_named ''b'']
             = [tool_named ''send'', tool_named ''send'']"
    by (simp add: discovered_def environment_of_def)
  from duplicate_names_aggregated [where e = ?e and cfgs = "[server_named ''a'', server_named ''b'']"
         and m = MCPClientManager_init and n = "''send''" and pre = "[]" and a = "server_named ''a''"
         and mid = "[]" and b = "server_named ''b''" and post = "[]"
         and tools_a = "[tool_named ''send'']" and tools_b = "[tool_named ''send'']"
         and x = "tool_named ''send''" and y = "tool_named ''send''"] h
  have "\<exists>m'. build_tool_set ?e [server_named ''a'', server_named ''b''] MCPClientManager_init = Inr m'
              \<and> all_tools m' = discovered ?e [server_named ''a'', server_named ''b'']
              \<and> 2 \<le> length (filter (\<lambda>t. t_name t = ''send'') (all_tools m'))"
    by blast
  then show ?thesis using ld unfolding d by simp
qed

text \<open>
  C3 as stated fails: with two servers that both expose \<^verbatim>\<open>send\<close> the build succeeds and
  the tool set holds \<^verbatim>\<open>send\<close> twice.
\<close>

theorem duplicate_send_is_accepted:
  "build_tool_set (environment_of (\<lambda>i. Exposes [tool_named ''send'']))
           [server_named ''a'', server_named ''b''] MCPClientManager_init
     \<noteq> Inl (DuplicateOperation ''send'')
   \<and> map_sum id all_tools
       (build_tool_set (environment_of (\<lambda>i. Exposes [tool_named ''send'']))
           [server_named ''a'', server_named ''b''] MCPClientManager_init)
     = Inr [tool_named ''send'', tool_named ''send'']"
  by (simp add: build_tool_set_def environment_of_def MCPClientManager_init_def
      NoToolsAvailable_def server_named_def Let_def)

section \<open>Teardown\<close>







section \<open>Tool activities at the end of an execution\<close>

lemma mongodb_update_reachable:
  "reachable (snd (mongodb_update_tool_activity i outp st db)) = reachable db"
  by (simp add: mongodb_update_tool_activity_def split: option.splits)

lemma mongodb_update_keys:
  "fst ` set (activities_collection (snd (mongodb_update_tool_activity i outp st db)))
     = fst ` set (activities_collection db)"
proof (cases "reachable db")
  case False
  then show ?thesis by (simp add: mongodb_update_tool_activity_def)
next
  case True
  show ?thesis
  proof (cases "map_of (activities_collection db) i")
    case None
    with True show ?thesis by (simp add: mongodb_update_tool_activity_def)
  next
    case (Some d)
    then have "i \<in> fst ` set (activities_collection db)"
      using map_of_eq_None_iff [of "activities_collection db" i] by auto
    then have "insert i (fst ` set (activities_collection db)) = fst ` set (activities_collection db)"
      by (rule insert_absorb)
    with True Some show ?thesis
      by (simp add: mongodb_update_tool_activity_def AList.dom_update)
  qed
qed

lemma mongodb_update_marks:
  "reachable db \<Longrightarrow> i \<in> fst ` set (activities_collection db) \<Longrightarrow>
     fst (mongodb_update_tool_activity i outp st db)
     \<and> doc_marked (snd (mongodb_update_tool_activity i outp st db)) i st outp"
proof -
  assume r: "reachable db" and k: "i \<in> fst ` set (activities_collection db)"
  from k obtain d where "map_of (activities_collection db) i = Some d"
    using map_of_eq_None_iff [of "activities_collection db" i] by auto
  with r show ?thesis
    by (simp add: mongodb_update_tool_activity_def doc_marked_def update_conv')
qed

lemma mongodb_update_keeps_marked:
  "doc_marked db j st outp \<Longrightarrow> doc_marked (snd (mongodb_update_tool_activity i outp st db)) j st outp"
  by (auto simp: mongodb_update_tool_activity_def doc_marked_def update_conv'
      split: option.splits)

lemma update_tool_activity_eq:
  "update_tool_activity k outp st tr =
     (case map_of (tool_activities (fst tr)) k of
        None \<Rightarrow> tr
      | Some i \<Rightarrow>
          (if fst (mongodb_update_tool_activity i outp st (snd tr))
           then (fst tr\<lparr>tool_activities := AList.delete k (tool_activities (fst tr))\<rparr>,
                 snd (mongodb_update_tool_activity i outp st (snd tr)))
           else (fst tr, snd (mongodb_update_tool_activity i outp st (snd tr)))))"
  by (cases "map_of (tool_activities (fst tr)) k")
     (auto simp: update_tool_activity_def Let_def split: prod.splits bool.splits)

lemma update_tool_activity_reachable:
  "reachable (snd (update_tool_activity k outp st tr)) = reachable (snd tr)"
  by (simp add: update_tool_activity_eq mongodb_update_reachable split: option.splits)

lemma update_tool_activity_keys:
  "fst ` set (activities_collection (snd (update_tool_activity k outp st tr)))
     = fst ` set (activities_collection (snd tr))"
  by (simp add: update_tool_activity_eq mongodb_update_keys split: option.splits)

lemma update_tool_activity_keeps_marked:
  "doc_marked (snd tr) j st outp \<Longrightarrow> doc_marked (snd (update_tool_activity k outp st tr)) j st outp"
  by (simp add: update_tool_activity_eq mongodb_update_keeps_marked split: option.splits)

lemma update_tool_activity_other:
  "t \<noteq> k \<Longrightarrow>
     map_of (tool_activities (fst (update_tool_activity k outp st tr))) t
       = map_of (tool_activities (fst tr)) t"
  by (simp add: update_tool_activity_eq delete_conv' split: option.splits)

lemma update_tool_activity_marks:
  "reachable (snd tr) \<Longrightarrow> map_of (tool_activities (fst tr)) k = Some i \<Longrightarrow>
   i \<in> fst ` set (activities_collection (snd tr)) \<Longrightarrow>
     doc_marked (snd (update_tool_activity k outp st tr)) i st outp"
  by (simp add: update_tool_activity_eq mongodb_update_marks)

lemma fold_update_keeps_marked:
  "doc_marked (snd tr) j st outp \<Longrightarrow>
     doc_marked (snd (fold (\<lambda>t. update_tool_activity t outp st) ks tr)) j st outp"
  by (induction ks arbitrary: tr) (simp_all add: update_tool_activity_keeps_marked)

lemma fold_update_marks:
  "reachable (snd tr) \<Longrightarrow> map_of (tool_activities (fst tr)) k = Some i \<Longrightarrow>
   i \<in> fst ` set (activities_collection (snd tr)) \<Longrightarrow> k \<in> set ks \<Longrightarrow>
     doc_marked (snd (fold (\<lambda>t. update_tool_activity t outp st) ks tr)) i st outp"
proof (induction ks arbitrary: tr)
  case Nil
  then show ?case by simp
next
  case (Cons a ks)
  show ?case
  proof (cases "a = k")
    case True
    with Cons.prems have "doc_marked (snd (update_tool_activity a outp st tr)) i st outp"
      by (simp add: update_tool_activity_marks)
    then show ?thesis by (simp add: fold_update_keeps_marked)
  next
    case False
    with Cons.prems have "k \<in> set ks" by simp
    moreover have "reachable (snd (update_tool_activity a outp st tr))"
      using Cons.prems by (simp add: update_tool_activity_reachable)
    moreover have "map_of (tool_activities (fst (update_tool_activity a outp st tr))) k = Some i"
      using Cons.prems False by (simp add: update_tool_activity_other)
    moreover have "i \<in> fst ` set (activities_collection (snd (update_tool_activity a outp st tr)))"
      using Cons.prems by (simp add: update_tool_activity_keys)
    ultimately show ?thesis using Cons.IH by simp
  qed
qed

lemma update_pending_marks:
  assumes "reachable (snd tr)" and "map_of (tool_activities (fst tr)) k = Some i"
      and "i \<in> fst ` set (activities_collection (snd tr))"
  shows "doc_marked (snd (update_pending_tool_activities st outp tr)) i st outp"
proof -
  from assms(2) have "k \<in> set (map fst (tool_activities (fst tr)))"
    by (metis image_set map_of_eq_None_iff option.distinct(1))
  with assms show ?thesis
    unfolding update_pending_tool_activities_def by (rule fold_update_marks)
qed

lemma finish_execution_timed_out:
  assumes "snd run = TimedOut"
  shows "finish_execution run sid clk st =
     (Inl (Exception ''Agent execution timed out after 60 seconds''),
      st\<lparr>tool_logger :=
            fst (update_pending_tool_activities ''failed'' ''Execution timeout'' (tracking_after run st)),
         mongodb_server :=
            snd (update_pending_tool_activities ''failed'' ''Execution timeout'' (tracking_after run st))\<rparr>)"
  using assms by (simp add: finish_execution_def tracking_after_def Let_def)

text \<open>
  C4 (as the code has it). When the awaited agent call ends by the 60 second timeout,
  the execution raises a plain \<^verbatim>\<open>Exception\<close> with the message
  \<^verbatim>\<open>Agent execution timed out after 60 seconds\<close>, and every activity that the tool logger
  tracks at that moment, whose document the reachable database holds, has afterwards
  the status \<^verbatim>\<open>failed\<close> and the output \<^verbatim>\<open>Execution timeout\<close>.
\<close>

theorem timeout_marks_tracked_activities:
  assumes "snd run = TimedOut"
  shows "fst (finish_execution run sid clk st)
           = Inl (Exception ''Agent execution timed out after 60 seconds'')
         \<and> (\<forall>k i. reachable (snd (tracking_after run st))
                  \<and> map_of (tool_activities (fst (tracking_after run st))) k = Some i
                  \<and> i \<in> fst ` set (activities_collection (snd (tracking_after run st))) \<longrightarrow>
                  activity_status (snd (finish_execution run sid clk st)) i = Some ''failed''
                  \<and> activity_output (snd (finish_execution run sid clk st)) i
                      = Some ''Execution timeout'')"
proof (intro conjI allI impI)
  show "fst (finish_execution run sid clk st)
           = Inl (Exception ''Agent execution timed out after 60 seconds'')"
    by (simp add: finish_execution_timed_out [OF assms])
next
  fix k i
  assume h: "reachable (snd (tracking_after run st))
                  \<and> map_of (tool_activities (fst (tracking_after run st))) k = Some i
                  \<and> i \<in> fst ` set (activities_collection (snd (tracking_after run st)))"
  then have m: "doc_marked (snd (update_pending_tool_activities ''failed'' ''Execution timeout''
                   (tracking_after run st))) i ''failed'' ''Execution timeout''"
    by (intro update_pending_marks [of _ k]) simp_all
  from m show "activity_status (snd (finish_execution run sid clk st)) i = Some ''failed''"
    by (simp add: finish_execution_timed_out [OF assms] activity_status_def doc_marked_def
        split: option.splits)
  from m show "activity_output (snd (finish_execution run sid clk st)) i = Some ''Execution timeout''"
    by (simp add: finish_execution_timed_out [OF assms] activity_output_def doc_marked_def
        split: option.splits)
qed


lemma slow_engine_tracking:
  "tracking_after (slow_engine ''find it'')
     (snd (prepare_execution ''find it'' None (Some 1) (Some 1) (clock0 5) state0))
   = (\<lparr>tools_used = [''search''], tool_activities = [(''search'', 0)],
       agent_id = Some 1, workspace_id = Some 1\<rparr>,
      \<lparr>reachable = True,
       activities_collection =
         [(0, \<lparr>doc_agent_id = 1, doc_workspace_id = 1, tool_called = ''search'',
               tool_input = ''{}'', status = ''running'', tool_output = None\<rparr>)],
       next_object_id = 1\<rparr>)"
  by code_simp

theorem timeout_marks_tracked_activities_witness:
  "snd (slow_engine ''find it'') = TimedOut
   \<and> activity_status
        (snd (finish_execution (slow_engine ''find it'') None (clock0 6)
               (snd (prepare_execution ''find it'' None (Some 1) (Some 1) (clock0 5) state0)))) 0
      = Some ''failed''
   \<and> activity_output
        (snd (finish_execution (slow_engine ''find it'') None (clock0 6)
               (snd (prepare_execution ''find it'' None (Some 1) (Some 1) (clock0 5) state0)))) 0
      = Some ''Execution timeout''"
proof -
  have t: "snd (slow_engine ''find it'') = TimedOut"
    by (simp add: slow_engine_def)
  let ?st = "snd (prepare_execution ''find it'' None (Some 1) (Some 1) (clock0 5) state0)"
  have h: "reachable (snd (tracking_after (slow_engine ''find it'') ?st))
           \<and> map_of (tool_activities (fst (tracking_after (slow_engine ''find it'') ?st))) ''search''
               = Some 0
           \<and> 0 \<in> fst ` set (activities_collection (snd (tracking_after (slow_engine ''find it'') ?st)))"
    by (simp add: slow_engine_tracking)
  from timeout_marks_tracked_activities [OF t, of None "clock0 6" ?st] h t
  show ?thesis by blast
qed

text \<open>
  C4 as stated fails: the execution whose engine runs into the timeout after asking for
  one tool call raises an \<^verbatim>\<open>Exception\<close>, not a \<^verbatim>\<open>TimeoutError\<close>, and the activity is
  failed with the output \<^verbatim>\<open>Execution timeout\<close>, not \<^verbatim>\<open>timeout\<close>.
\<close>

theorem timeout_reason_and_error:
  "fst (execute_agent_with_context slow_engine ''find it'' None (Some 1) (Some 1)
          (clock0 5) (clock0 6) state0)
     = Inl (Exception ''Agent execution timed out after 60 seconds'')
   \<and> fst (execute_agent_with_context slow_engine ''find it'' None (Some 1) (Some 1)
          (clock0 5) (clock0 6) state0) \<noteq> Inl TimeoutError
   \<and> activity_status (snd (execute_agent_with_context slow_engine ''find it'' None (Some 1) (Some 1)
          (clock0 5) (clock0 6) state0)) 0 = Some ''failed''
   \<and> activity_output (snd (execute_agent_with_context slow_engine ''find it'' None (Some 1) (Some 1)
          (clock0 5) (clock0 6) state0)) 0 = Some ''Execution timeout''
   \<and> activity_output (snd (execute_agent_with_context slow_engine ''find it'' None (Some 1) (Some 1)
          (clock0 5) (clock0 6) state0)) 0 \<noteq> Some ''timeout''"
  by code_simp

text \<open>
  C5 fails on the code. One LLM response asks for the tool \<^verbatim>\<open>search\<close> twice; two
  activity documents are created, and \<^verbatim>\<open>tool_activities\<close>, keyed by the tool name, keeps
  only the id of the second. Both calls end and the engine returns a result: the
  execution succeeds, the second activity is \<^verbatim>\<open>completed\<close>, nothing is tracked any more,
  and the first activity is still \<^verbatim>\<open>running\<close>.
\<close>

theorem repeated_tool_stays_running:
  "isl (fst (execute_agent_with_context twice_engine ''find both'' None (Some 1) (Some 1)
          (clock0 5) (clock0 6) state0)) = False
   \<and> activity_status (snd (execute_agent_with_context twice_engine ''find both'' None (Some 1) (Some 1)
          (clock0 5) (clock0 6) state0)) 0 = Some ''running''
   \<and> activity_status (snd (execute_agent_with_context twice_engine ''find both'' None (Some 1) (Some 1)
          (clock0 5) (clock0 6) state0)) 1 = Some ''completed''
   \<and> tool_activities (tool_logger (snd (execute_agent_with_context twice_engine ''find both'' None
          (Some 1) (Some 1) (clock0 5) (clock0 6) state0))) = []"
  by code_simp

section \<open>Concurrent initialisation\<close>

lemma initialize_reset_lock:
  "initialization_lock (initialize_reset e m) = initialization_lock m
   \<and> is_initializing (initialize_reset e m) = is_initializing m"
  by (simp add: initialize_reset_def reset_state_def force_cleanup_def
      split: option.splits exit_behaviour.splits)

lemma force_cleanup_lock:
  "initialization_lock (force_cleanup e m) = initialization_lock m
   \<and> is_initializing (force_cleanup e m) = is_initializing m"
  by (simp add: force_cleanup_def split: option.splits exit_behaviour.splits)

lemma initialize_build_releases:
  "\<not> initialization_lock (snd (initialize_build e cfgs m))
   \<and> \<not> is_initializing (snd (initialize_build e cfgs m))"
  by (simp add: initialize_build_def Let_def force_cleanup_lock
      split: sum.splits creation_behaviour.splits)

lemma invariant_start:
  "\<not> initialization_lock m \<Longrightarrow> \<not> is_initializing m \<Longrightarrow> single_flight_invariant (start_system m)"
  by (simp add: single_flight_invariant_def start_system_def inside_def)

lemma invariant_step:
  assumes inv: "single_flight_invariant s" and st: "step e cfgs t s = Some s'"
  shows "single_flight_invariant s'"
proof (cases "pcs s t")
  case Calling
  with st have free: "\<not> initialization_lock (manager s)"
    by (auto simp: step_def split: if_splits)
  with inv have nf: "\<not> is_initializing (manager s)" and none: "\<forall>u. \<not> inside (pcs s u)"
    by (auto simp: single_flight_invariant_def)
  from st Calling free nf have s': "s' = s\<lparr>manager := (manager s)\<lparr>initialization_lock := True,
        is_initializing := True\<rparr>, pcs := (pcs s)(t := Resetting)\<rparr>"
    by (simp add: step_def initialize_enter_def)
  show ?thesis
    using inv none unfolding s' single_flight_invariant_def
    by (auto simp: inside_def)
next
  case Resetting
  with st have s': "s' = s\<lparr>manager := initialize_reset e (manager s), pcs := (pcs s)(t := Building)\<rparr>"
    by (simp add: step_def)
  from Resetting have it: "inside (pcs s t)" by (simp add: inside_def)
  show ?thesis
    using inv it unfolding s' single_flight_invariant_def
    by (auto simp: inside_def initialize_reset_lock)
next
  case Building
  from Building have it: "inside (pcs s t)" by (simp add: inside_def)
  from st Building obtain p sp where s': "s' = s\<lparr>manager := snd (initialize_build e cfgs (manager s)),
         pcs := (pcs s)(t := p), spawned := sp\<rparr>" and p: "p = DoneOk \<or> p = DoneRaised"
    by (auto simp: step_def Let_def split: prod.splits option.splits)
  from inv it have only: "\<forall>u. inside (pcs s u) \<longrightarrow> u = t"
    by (auto simp: single_flight_invariant_def)
  show ?thesis
    using inv only p unfolding s' single_flight_invariant_def
    by (auto simp: inside_def initialize_build_releases)
next
  case DoneEarly
  with st show ?thesis by (simp add: step_def)
next
  case DoneOk
  with st show ?thesis by (simp add: step_def)
next
  case DoneRaised
  with st show ?thesis by (simp add: step_def)
qed

lemma reaches_invariant:
  assumes "reaches e cfgs m s" and "\<not> initialization_lock m" and "\<not> is_initializing m"
  shows "single_flight_invariant s"
  using assms
  by (induction rule: reaches.induct) (auto intro: invariant_start invariant_step)

lemma early_return_unreachable:
  assumes "reaches e cfgs m s" and "\<not> initialization_lock m" and "\<not> is_initializing m"
  shows "pcs s t \<noteq> DoneEarly"
  using reaches_invariant [OF assms] by (simp add: single_flight_invariant_def)

text \<open>
  C1 fails on the code. Two tasks call \<^verbatim>\<open>initialize\<close> on a new manager over one server.
  While task 1 is inside, task 2 cannot take a step: it waits for the lock and does not
  return. Once task 1 has finished, task 2 takes the lock, finds the flag cleared, and
  runs the whole initialisation again: both calls end normally and the server process
  has been started twice. (By \<open>early_return_unreachable\<close> no schedule of any number of
  tasks ever takes the early return.)
\<close>

theorem concurrent_initialize_spawns_twice:
  "step (environment_of (\<lambda>i. Exposes [tool_named ''add''])) [server_named ''math''] (2::nat)
     (run_schedule (environment_of (\<lambda>i. Exposes [tool_named ''add''])) [server_named ''math'']
        [1] (start_system MCPClientManager_init)) = None
   \<and> pcs (run_schedule (environment_of (\<lambda>i. Exposes [tool_named ''add''])) [server_named ''math'']
        [1, 2, 1, 2, 1, 2, 2, 2] (start_system MCPClientManager_init)) (1::nat) = DoneOk
   \<and> pcs (run_schedule (environment_of (\<lambda>i. Exposes [tool_named ''add''])) [server_named ''math'']
        [1, 2, 1, 2, 1, 2, 2, 2] (start_system MCPClientManager_init)) (2::nat) = DoneOk
   \<and> spawned (run_schedule (environment_of (\<lambda>i. Exposes [tool_named ''add''])) [server_named ''math'']
        [1, 2, 1, 2, 1, 2, 2, 2] (start_system MCPClientManager_init))
       = [(1::nat, ''math''), (2, ''math'')]"
  by code_simp

end
